theory Spec2Isabelle
  imports Complex_Main
begin

unbundle bit_operations_syntax

section \<open>The Pathoscope workflow (workflow.py)\<close>

text \<open>
  The workflow is a sequence of steps that share one namespace of intermediate values.
  Three steps run the aligner and hand every line of its output to a callback
  (\<open>stdout_handler\<close>); the later steps subtract host reads, run the reassignment and
  build the list of hits. Each step is embedded as a function from the state it reads to
  the state it leaves, and every Python exception of a step is a value \<open>Inl e\<close>.

  External collaborators (the aligner process, the \<open>pathoscope\<close> module, the index
  object) are arguments of the functions that call them.
\<close>

subsection \<open>Python values and exceptions\<close>

datatype error =
    IndexError
  | ValueError
  | KeyError
  | TypeError
  | ZeroDivisionError
  | AttributeError
  | FileNotFoundError
  | OverflowError

text \<open>
  A \<open>pathlib.Path\<close> is its list of components; \<open>p / name\<close> appends one component.
\<close>

datatype path = Path "string list"

fun path_div :: "path \<Rightarrow> string \<Rightarrow> path" where
  "path_div (Path parts) name = Path (parts @ [name])"

fun join_with :: "string \<Rightarrow> string list \<Rightarrow> string" where
  "join_with sep [] = []"
| "join_with sep [x] = x"
| "join_with sep (x # y # ys) = x @ sep @ join_with sep (y # ys)"

fun str_path :: "path \<Rightarrow> string" where
  "str_path (Path parts) = join_with ''/'' parts"

text \<open>
  The elements of an argument list given to \<open>run_subprocess\<close>: strings, paths and, where
  the source builds one, a tuple.
\<close>

datatype py_val = PStr string | PPath path | PTuple "py_val list"

subsection \<open>\<open>str(n)\<close> and \<open>int(s)\<close>\<close>

definition digit_char :: "nat \<Rightarrow> char" where
  "digit_char d = ''0123456789'' ! d"

fun str_nat :: "nat \<Rightarrow> string" where
  "str_nat n = (if n < 10 then [digit_char n] else str_nat (n div 10) @ [digit_char (n mod 10)])"

declare str_nat.simps [simp del]

definition str_int :: "int \<Rightarrow> string" where
  "str_int i = (if i < 0 then CHR ''-'' # str_nat (nat (- i)) else str_nat (nat i))"

text \<open>
  \<open>int(s)\<close> in base ten: surrounding whitespace is dropped, then an optional sign, then
  decimal digits in which single underscores may separate digits. Anything else raises
  \<open>ValueError\<close>, here \<open>None\<close>. Characters stand for the code points below 256 of the
  decoded line. The whitespace that \<open>int\<close> drops is tab, line feed, vertical tab, form
  feed, carriage return and space, and of the code points above 126 the two that are
  Unicode whitespace, \<open>0x85\<close> and \<open>0xA0\<close>; the separators \<open>0x1C\<close> to \<open>0x1F\<close> are not
  dropped. A string with more decimal digits than \<open>sys.int_info.default_max_str_digits\<close>
  is refused as well.
\<close>

definition is_space :: "char \<Rightarrow> bool" where
  "is_space c \<longleftrightarrow> c \<in> set [CHR 0x09, CHR 0x0A, CHR 0x0B, CHR 0x0C, CHR 0x0D,
      CHR 0x20, CHR 0x85, CHR 0xA0]"

definition int_max_str_digits :: nat where
  "int_max_str_digits = 4300"

definition is_digit :: "char \<Rightarrow> bool" where
  "is_digit c \<longleftrightarrow> c \<in> set ''0123456789''"

definition digit_val :: "char \<Rightarrow> int" where
  "digit_val c = of_char c - 48"

definition strip :: "string \<Rightarrow> string" where
  "strip s = rev (dropWhile is_space (rev (dropWhile is_space s)))"

text \<open>
  \<open>digits need cs acc\<close>: \<open>need\<close> says that the next character must be a digit (at the
  start and after an underscore).
\<close>

fun digits :: "bool \<Rightarrow> string \<Rightarrow> int \<Rightarrow> int option" where
  "digits need [] acc = (if need then None else Some acc)"
| "digits need (c # cs) acc =
     (if is_digit c then digits False cs (10 * acc + digit_val c)
      else if c = CHR ''_'' \<and> \<not> need then digits True cs acc
      else None)"

definition py_int :: "string \<Rightarrow> int option" where
  "py_int s =
     (case strip s of
        [] \<Rightarrow> None
      | c # cs \<Rightarrow>
          if int_max_str_digits < length (filter is_digit (c # cs)) then None
          else if c = CHR ''-'' then map_option uminus (digits True cs 0)
          else if c = CHR ''+'' then digits True cs 0
          else digits True (c # cs) 0)"

subsection \<open>\<open>line.split("\\t")\<close>\<close>

fun split_tab :: "string \<Rightarrow> string list" where
  "split_tab [] = [[]]"
| "split_tab (c # cs) =
     (if c = CHR 0x09 then [] # split_tab cs
      else (case split_tab cs of
              [] \<Rightarrow> [[c]]
            | f # fs \<Rightarrow> (c # f) # fs))"

subsection \<open>The stream callbacks\<close>

text \<open>
  Each callback receives one line of aligner output (here already decoded to text) and
  either returns without effect, or hands one record to the sink of its step, or raises.
  The result \<open>Inr None\<close> is a return without effect, \<open>Inr (Some r)\<close> is the record
  given to the sink, \<open>Inl e\<close> is the exception. Every raise of a callback happens before
  its sink is touched.

  \<open>pathoscope.find_sam_align_score\<close> is supplied from outside: it takes the fields of
  the line and returns a score or raises. Scores are compared with \<open><\<close> only; they are
  rational numbers here.
\<close>

type_synonym score_fn = "string list \<Rightarrow> error + rat"

text \<open>The fixture \<open>p_score_cutoff\<close>.\<close>

definition p_score_cutoff :: rat where
  "p_score_cutoff = 1 / 100"

text \<open>\<open>map_default_isolates.stdout_handler\<close>: the sink is \<open>intermediate.to_otus.add\<close>.\<close>

definition stdout_handler_default :: "score_fn \<Rightarrow> rat \<Rightarrow> string \<Rightarrow> error + string option" where
  "stdout_handler_default find_sam_align_score cutoff line =
     (if line = [] then Inl IndexError
      else if hd line = CHR ''#'' \<or> hd line = CHR ''@'' then Inr None
      else
        let fields = split_tab line in
        if length fields < 2 then Inl IndexError
        else
          case py_int (fields ! 1) of
            None \<Rightarrow> Inl ValueError
          | Some flag \<Rightarrow>
              if flag AND 4 = 4 then Inr None
              else if length fields < 3 then Inl IndexError
              else
                let ref_id = fields ! 2 in
                if ref_id = ''*'' then Inr None
                else
                  (case find_sam_align_score fields of
                     Inl e \<Rightarrow> Inl e
                   | Inr p_score \<Rightarrow>
                       if p_score < cutoff then Inr None else Inr (Some ref_id)))"

text \<open>
  \<open>map_isolates.stdout_handler\<close>: the sink is \<open>f.write\<close> on the alignment file. The line
  written is the five fields below joined by commas.
\<close>

record vta_record =
  read_id :: string
  reference_id :: string
  position :: string
  read_length :: nat
  score :: rat

definition stdout_handler_isolates :: "score_fn \<Rightarrow> rat \<Rightarrow> string \<Rightarrow> error + vta_record option" where
  "stdout_handler_isolates find_sam_align_score cutoff line =
     (if line = [] then Inl IndexError
      else if hd line = CHR ''@'' \<or> line = ''#'' then Inr None
      else
        let fields = split_tab line in
        if length fields < 2 then Inl IndexError
        else
          case py_int (fields ! 1) of
            None \<Rightarrow> Inl ValueError
          | Some flag \<Rightarrow>
              if flag AND 4 = 4 then Inr None
              else if length fields < 3 then Inl IndexError
              else
                let ref_id = fields ! 2 in
                if ref_id = ''*'' then Inr None
                else
                  (case find_sam_align_score fields of
                     Inl e \<Rightarrow> Inl e
                   | Inr p_score \<Rightarrow>
                       if p_score < cutoff then Inr None
                       else if length fields < 10 then Inl IndexError
                       else Inr (Some \<lparr>read_id = fields ! 0, reference_id = ref_id,
                                       position = fields ! 3,
                                       read_length = length (fields ! 9),
                                       score = p_score\<rparr>)))"

text \<open>
  \<open>map_subtractions.stdout_handler\<close>: the sink is the assignment
  \<open>to_subtraction[fields[0]] = score\<close>. The step takes no score cutoff.
\<close>

definition stdout_handler_subtraction :: "score_fn \<Rightarrow> string \<Rightarrow> error + (string \<times> rat) option" where
  "stdout_handler_subtraction find_sam_align_score line =
     (if line = [] then Inl IndexError
      else if hd line = CHR ''@'' \<or> line = ''#'' then Inr None
      else
        let fields = split_tab line in
        if length fields < 2 then Inl IndexError
        else
          case py_int (fields ! 1) of
            None \<Rightarrow> Inl ValueError
          | Some flag \<Rightarrow>
              if flag AND 4 = 4 then Inr None
              else if length fields < 3 then Inl IndexError
              else if fields ! 2 = ''*'' then Inr None
              else
                (case find_sam_align_score fields of
                   Inl e \<Rightarrow> Inl e
                 | Inr s \<Rightarrow> Inr (Some (fields ! 0, s))))"

text \<open>
  An instance of the score collaborator, for evaluating the callbacks on concrete lines:
  the integer after the first \<open>AS:i:\<close> tag, the alignment score that Bowtie2 prints.
\<close>

fun as_tag_score :: score_fn where
  "as_tag_score [] = Inl ValueError"
| "as_tag_score (f # fs) =
     (if take 5 f = ''AS:i:'' then
        (case py_int (drop 5 f) of None \<Rightarrow> Inl ValueError | Some a \<Rightarrow> Inr (of_int a))
      else as_tag_score fs)"

subsection \<open>Feeding the aligner's output to a callback\<close>

text \<open>
  \<open>run_subprocess(command, stdout_handler=h)\<close> starts the process and calls \<open>h\<close> on every
  line of its output, in order. The process is an argument \<open>run\<close> that maps the command to
  the lines it prints; a raise of the callback ends the step with that exception.
\<close>

type_synonym subprocess = "py_val list \<Rightarrow> string list"

fun feed_lines ::
  "(string \<Rightarrow> error + 'r option) \<Rightarrow> ('r \<Rightarrow> 's \<Rightarrow> 's) \<Rightarrow> string list \<Rightarrow> 's \<Rightarrow> error + 's" where
  "feed_lines handler sink [] st = Inr st"
| "feed_lines handler sink (line # rest) st =
     (case handler line of
        Inl e \<Rightarrow> Inl e
      | Inr None \<Rightarrow> feed_lines handler sink rest st
      | Inr (Some r) \<Rightarrow> feed_lines handler sink rest (sink r st))"

subsection \<open>The shared state\<close>

text \<open>
  \<open>intermediate\<close> is a namespace: \<open>to_otus\<close> and \<open>lengths\<close> exist from the start, the other
  attributes exist once a step has set them (\<open>None\<close> before; reading one then raises
  \<open>AttributeError\<close>). \<open>to_otus\<close> is a Python set; its elements are kept in a list without
  duplicates. Files written and read by the steps are a map from paths to the alignment
  records they hold.
\<close>

datatype 'a awaitable = Awaitable 'a

definition run_in_executor :: "'a \<Rightarrow> 'a awaitable" where
  "run_in_executor call = Awaitable call"

fun await :: "'a awaitable \<Rightarrow> 'a" where
  "await (Awaitable result) = result"

text \<open>An awaitable that has not been awaited has no \<open>__getitem__\<close>.\<close>

definition subscript_awaitable :: "'a awaitable \<Rightarrow> 'k \<Rightarrow> error + 'b" where
  "subscript_awaitable obj key = Inl TypeError"

type_synonym files = "path \<rightharpoonup> vta_record list"

type_synonym coverage_table = "string \<rightharpoonup> int list"

record intermediate =
  to_otus :: "string list"
  lengths :: "(string \<rightharpoonup> nat) option"
  isolate_fasta_path :: "py_val option"
  isolate_vta_path :: "path option"
  isolate_mapped_fastq_path :: "path option"
  isolate_bt2_path :: "path option"
  to_subtraction :: "(string \<rightharpoonup> rat) option"
  coverage :: "(error + coverage_table) awaitable option"

definition new_intermediate :: intermediate where
  "new_intermediate =
     \<lparr>to_otus = [], lengths = None, isolate_fasta_path = None, isolate_vta_path = None,
      isolate_mapped_fastq_path = None, isolate_bt2_path = None, to_subtraction = None,
      coverage = None\<rparr>"

record reads =
  left :: path
  right :: path

record index =
  index_path :: path
  get_otu_id_by_sequence_id :: "string \<Rightarrow> error + string"
  manifest :: "string \<rightharpoonup> nat"
  index_write_isolate_fasta :: "string list \<Rightarrow> py_val \<Rightarrow> int \<Rightarrow> error + (string \<rightharpoonup> nat)"

record subtraction =
  subtraction_path :: path

subsection \<open>\<open>map_default_isolates\<close>\<close>

text \<open>
  In the argument list of the source no comma separates \<open>"--no-unal"\<close> from \<open>"--local"\<close>,
  so Python joins the two literals into one string.
\<close>

definition map_default_isolates_command :: "int \<Rightarrow> index \<Rightarrow> reads \<Rightarrow> py_val list" where
  "map_default_isolates_command proc idx rd =
     [PStr ''bowtie2'',
      PStr ''-p'', PStr (str_int proc),
      PStr (''--no-unal'' @ ''--local''),
      PStr ''--score-min'', PStr ''L,20,1.0'',
      PStr ''-N'', PStr ''0'',
      PStr ''-L'', PStr ''15'',
      PStr ''-x'', PPath (index_path idx),
      PStr ''-U'', PStr (str_path (left rd) @ '','' @ str_path (right rd))]"

definition map_default_isolates ::
  "subprocess \<Rightarrow> score_fn \<Rightarrow> rat \<Rightarrow> intermediate \<Rightarrow> reads \<Rightarrow> index \<Rightarrow> int \<Rightarrow> error + intermediate" where
  "map_default_isolates run find_sam_align_score cutoff im rd idx proc =
     (case feed_lines (stdout_handler_default find_sam_align_score cutoff) List.insert
             (run (map_default_isolates_command proc idx rd)) (to_otus im) of
        Inl e \<Rightarrow> Inl e
      | Inr otus \<Rightarrow> Inr (im\<lparr>to_otus := otus\<rparr>))"

subsection \<open>\<open>write_isolate_fasta\<close> and \<open>build_isolate_index\<close>\<close>

fun map_sum :: "('a \<Rightarrow> error + 'b) \<Rightarrow> 'a list \<Rightarrow> error + 'b list" where
  "map_sum f [] = Inr []"
| "map_sum f (x # xs) =
     (case f x of
        Inl e \<Rightarrow> Inl e
      | Inr y \<Rightarrow> (case map_sum f xs of Inl e \<Rightarrow> Inl e | Inr ys \<Rightarrow> Inr (y # ys)))"

text \<open>
  The source ends the assignment of \<open>fasta_path\<close> with a comma, so the value is a tuple of
  one path. That value is what \<open>index.write_isolate_fasta\<close> receives and what is stored
  as \<open>intermediate.isolate_fasta_path\<close>.
\<close>

definition write_isolate_fasta :: "intermediate \<Rightarrow> index \<Rightarrow> int \<Rightarrow> path \<Rightarrow> error + intermediate" where
  "write_isolate_fasta im idx proc isolate_path =
     (let fasta_path = PTuple [PPath (path_div isolate_path ''isolate_index.fa'')] in
      case map_sum (get_otu_id_by_sequence_id idx) (to_otus im) of
        Inl e \<Rightarrow> Inl e
      | Inr otu_ids \<Rightarrow>
          (case index_write_isolate_fasta idx otu_ids fasta_path proc of
             Inl e \<Rightarrow> Inl e
           | Inr lens \<Rightarrow> Inr (im\<lparr>lengths := Some lens, isolate_fasta_path := Some fasta_path\<rparr>)))"

text \<open>The step runs this command and changes nothing else.\<close>

definition build_isolate_index :: "intermediate \<Rightarrow> path \<Rightarrow> int \<Rightarrow> error + py_val list" where
  "build_isolate_index im isolate_path proc =
     (case isolate_fasta_path im of
        None \<Rightarrow> Inl AttributeError
      | Some fasta \<Rightarrow>
          Inr [PStr ''bowtie2-build'',
               PStr ''--threads'', PStr (str_int proc),
               fasta,
               PPath (path_div isolate_path ''isolates'')])"

subsection \<open>\<open>map_isolates\<close>\<close>

definition map_isolates_command :: "int \<Rightarrow> path \<Rightarrow> path \<Rightarrow> reads \<Rightarrow> py_val list" where
  "map_isolates_command proc mapped_fastq_path reference_path rd =
     [PStr ''bowtie2'',
      PStr ''-p'', PStr (str_int proc),
      PStr ''--no-unal'',
      PStr ''--local'',
      PStr ''--score-min'', PStr ''L,20,1.0'',
      PStr ''-N'', PStr ''0'',
      PStr ''-L'', PStr ''15'',
      PStr ''-k'', PStr ''100'',
      PStr ''--al'', PPath mapped_fastq_path,
      PStr ''-x'', PPath reference_path,
      PStr ''-U'', PStr (str_path (left rd) @ '','' @ str_path (right rd))]"

definition map_isolates ::
  "subprocess \<Rightarrow> score_fn \<Rightarrow> rat \<Rightarrow> files \<Rightarrow> intermediate \<Rightarrow> reads \<Rightarrow> path \<Rightarrow> int
     \<Rightarrow> error + files \<times> intermediate" where
  "map_isolates run find_sam_align_score cutoff fs im rd isolate_path proc =
     (let vta_path = path_div isolate_path ''to_isolates.vta'';
          mapped_fastq_path = path_div isolate_path ''mapped.fastq'';
          reference_path = path_div isolate_path ''isolates''
      in
      case feed_lines (stdout_handler_isolates find_sam_align_score cutoff) (\<lambda>r written. written @ [r])
             (run (map_isolates_command proc mapped_fastq_path reference_path rd)) [] of
        Inl e \<Rightarrow> Inl e
      | Inr written \<Rightarrow>
          Inr (fs(vta_path \<mapsto> written),
               im\<lparr>isolate_vta_path := Some vta_path,
                  isolate_mapped_fastq_path := Some mapped_fastq_path,
                  isolate_bt2_path := Some reference_path\<rparr>))"

subsection \<open>\<open>map_subtractions\<close>\<close>

text \<open>\<open>shlex.quote\<close>: a string of safe characters is kept, any other is put in single quotes.\<close>

definition is_safe_char :: "char \<Rightarrow> bool" where
  "is_safe_char c \<longleftrightarrow>
     c \<in> set (''abcdefghijklmnopqrstuvwxyz'' @ ''ABCDEFGHIJKLMNOPQRSTUVWXYZ'' @ ''0123456789''
              @ ''_@%+=:,./-'')"

definition shlex_quote :: "string \<Rightarrow> string" where
  "shlex_quote s =
     (if s = [] then [CHR 0x27, CHR 0x27]
      else if list_all is_safe_char s then s
      else [CHR 0x27]
           @ concat (map (\<lambda>c. if c = CHR 0x27 then [CHR 0x27, CHR 0x22, CHR 0x27, CHR 0x22, CHR 0x27]
                                else [c]) s)
           @ [CHR 0x27])"

definition map_subtractions_command :: "int \<Rightarrow> subtraction \<Rightarrow> path \<Rightarrow> py_val list" where
  "map_subtractions_command proc sub mapped_fastq_path =
     [PStr ''bowtie2'',
      PStr ''--local'',
      PStr ''-N'', PStr ''0'',
      PStr ''-p'', PStr (str_int proc),
      PStr ''-x'', PStr (shlex_quote (str_path (subtraction_path sub))),
      PStr ''-U'', PPath mapped_fastq_path]"

text \<open>The sink of the step: \<open>to_subtraction[read_id] = score\<close>.\<close>

definition store_score :: "string \<times> rat \<Rightarrow> (string \<rightharpoonup> rat) \<Rightarrow> (string \<rightharpoonup> rat)" where
  "store_score kv table = table(fst kv \<mapsto> snd kv)"

definition map_subtractions ::
  "subprocess \<Rightarrow> score_fn \<Rightarrow> intermediate \<Rightarrow> subtraction \<Rightarrow> int \<Rightarrow> error + intermediate" where
  "map_subtractions run find_sam_align_score im sub proc =
     (case isolate_mapped_fastq_path im of
        None \<Rightarrow> Inl AttributeError
      | Some mapped_fastq_path \<Rightarrow>
          (case feed_lines (stdout_handler_subtraction find_sam_align_score) store_score
                  (run (map_subtractions_command proc sub mapped_fastq_path)) Map.empty of
             Inl e \<Rightarrow> Inl e
           | Inr table \<Rightarrow> Inr (im\<lparr>to_subtraction := Some table\<rparr>)))"

subsection \<open>\<open>subtract_mapping\<close>\<close>




text \<open>
  The dictionary \<open>results\<close> of the workflow; a key that has not been set is \<open>None\<close>. A hit
  is the dictionary that \<open>write_report\<close> made for one sequence (\<open>h_stats\<close>) with the keys
  that \<open>reassignment\<close> adds.
\<close>

record 'h hit =
  h_stats :: 'h
  h_id :: string
  h_otu :: "string \<times> nat"
  h_coverage :: rat
  h_depth :: int

record 'h results_dict =
  subtracted_count :: "nat option"
  ready :: "bool option"
  read_count :: "nat option"
  results :: "'h hit list option"


subsection \<open>\<open>reassignment\<close>\<close>

text \<open>
  \<open>round(x)\<close> rounds a float to the nearest integer and a tie to the even one.
\<close>

definition py_round :: "rat \<Rightarrow> int" where
  "py_round x =
     (let f = \<lfloor>x\<rfloor>; d = x - of_int f in
      if d < 1 / 2 then f
      else if 1 / 2 < d then f + 1
      else if even f then f else f + 1)"

text \<open>
  A Python float is an IEEE 754 double; a finite double is kept as the rational number it
  stands for. \<open>to_double x\<close> is the double nearest to \<open>x\<close>, a tie going to the even
  significand: with \<open>2 ^ e \<le> \<bar>x\<bar> < 2 ^ (e + 1)\<close> the doubles around \<open>x\<close> are the
  multiples of \<open>2 ^ (e - 52)\<close>, and below \<open>2 ^ - 1022\<close> the multiples of \<open>2 ^ - 1074\<close>.
  \<open>bit_length\<close> is \<open>int.bit_length\<close>.
\<close>

function bit_length :: "int \<Rightarrow> int" where
  "bit_length n = (if n \<le> 0 then 0 else 1 + bit_length (n div 2))"
  by pat_completeness auto
termination
  by (relation "measure nat") auto

declare bit_length.simps [simp del]

definition ilog2 :: "rat \<Rightarrow> int" where
  "ilog2 x =
     (let d = bit_length (fst (quotient_of x)) - bit_length (snd (quotient_of x))
      in if 2 powi d \<le> x then d else d - 1)"

definition to_double :: "rat \<Rightarrow> rat" where
  "to_double x =
     (if x = 0 then 0
      else
        let e = max (ilog2 \<bar>x\<bar>) (- 1022);
            q = 2 powi (e - 52)
        in of_int (py_round (x / q)) * q)"

text \<open>
  \<open>a / b\<close> on two integers is the double nearest to the quotient; a quotient beyond the
  range of doubles raises \<open>OverflowError\<close>. \<open>x - y\<close> on floats is the double nearest
  to the difference (the differences taken here stay between 0 and 1). \<open>round(x, n)\<close>
  rounds the value of the float \<open>x\<close> at the \<open>n\<close>-th decimal, a tie going to the even
  digit, and returns the double nearest to that decimal number.
\<close>

definition py_truediv :: "int \<Rightarrow> int \<Rightarrow> error + rat" where
  "py_truediv a b =
     (if b = 0 then Inl ZeroDivisionError
      else if 2 ^ 1024 \<le> \<bar>to_double (of_int a / of_int b)\<bar> then Inl OverflowError
      else Inr (to_double (of_int a / of_int b)))"

definition py_float_sub :: "rat \<Rightarrow> rat \<Rightarrow> rat" where
  "py_float_sub x y = to_double (x - y)"

definition py_round_digits :: "rat \<Rightarrow> nat \<Rightarrow> rat" where
  "py_round_digits x n = to_double (of_int (py_round (x * 10 ^ n)) / 10 ^ n)"

text \<open>
  The two expressions of the loop body, on the depth array \<open>hit_coverage\<close> of one
  sequence. Both divide by \<open>len(hit_coverage)\<close>.
\<close>

definition coverage_of :: "int list \<Rightarrow> error + rat" where
  "coverage_of hit_coverage =
     (case py_truediv (int (count_list hit_coverage 0)) (int (length hit_coverage)) of
        Inl e \<Rightarrow> Inl e
      | Inr zero_fraction \<Rightarrow> Inr (py_round_digits (py_float_sub 1 zero_fraction) 3))"

definition depth_of :: "int list \<Rightarrow> error + int" where
  "depth_of hit_coverage =
     (case py_truediv (sum_list hit_coverage) (int (length hit_coverage)) of
        Inl e \<Rightarrow> Inl e
      | Inr mean \<Rightarrow> Inr (py_round mean))"

text \<open>
  The body of the loop over \<open>report.items()\<close>. \<open>cov\<close> is the value of
  \<open>intermediate.coverage\<close>.
\<close>

definition attach_hit ::
  "index \<Rightarrow> (error + coverage_table) awaitable \<Rightarrow> string \<times> 'h \<Rightarrow> error + 'h hit" where
  "attach_hit idx cov item =
     (let sequence_id = fst item in
      case get_otu_id_by_sequence_id idx sequence_id of
        Inl e \<Rightarrow> Inl e
      | Inr otu_id \<Rightarrow>
          (case manifest idx otu_id of
             None \<Rightarrow> Inl KeyError
           | Some version \<Rightarrow>
               (case subscript_awaitable cov sequence_id of
                  Inl e \<Rightarrow> Inl e
                | Inr hit_coverage \<Rightarrow>
                    (case coverage_of hit_coverage of
                       Inl e \<Rightarrow> Inl e
                     | Inr c \<Rightarrow>
                         (case depth_of hit_coverage of
                            Inl e \<Rightarrow> Inl e
                          | Inr d \<Rightarrow>
                              Inr \<lparr>h_stats = snd item, h_id = sequence_id,
                                   h_otu = (otu_id, version),
                                   h_coverage = c, h_depth = d\<rparr>)))))"

text \<open>
  The twelve values that \<open>pathoscope.run_patho\<close> returns. Only the length of \<open>reads\<close> is
  used by the step; the others go to \<open>pathoscope.write_report\<close> unchanged.
\<close>

record 'v patho_output =
  best_hit_initial_reads :: 'v
  best_hit_initial :: 'v
  level_1_initial :: 'v
  level_2_initial :: 'v
  best_hit_final_reads :: 'v
  best_hit_final :: 'v
  level_1_final :: 'v
  level_2_final :: 'v
  init_pi :: 'v
  pi_final :: 'v
  refs :: 'v
  reads :: "string list"

text \<open>
  \<open>run_patho\<close> reads the alignment file at its first path and writes the reassigned
  alignments to its second; it is given the records of the first file and returns the
  records of the second with its values. \<open>write_report\<close> returns the report, a dictionary
  from sequence ids to hits, kept as a list in iteration order. \<open>calculate_coverage\<close> is
  given the records of the reassigned file and the length table.
\<close>

type_synonym 'v run_patho_fn = "vta_record list \<Rightarrow> error + 'v patho_output \<times> vta_record list"

type_synonym ('v, 'h) write_report_fn =
  "path \<Rightarrow> 'v \<Rightarrow> 'v \<Rightarrow> nat \<Rightarrow> 'v \<Rightarrow> 'v \<Rightarrow> 'v \<Rightarrow> 'v \<Rightarrow> 'v \<Rightarrow> 'v \<Rightarrow> 'v \<Rightarrow> 'v \<Rightarrow> 'v
     \<Rightarrow> error + (string \<times> 'h) list"

type_synonym calculate_coverage_fn =
  "vta_record list \<Rightarrow> (string \<rightharpoonup> nat) option \<Rightarrow> error + coverage_table"

definition read_file :: "files \<Rightarrow> path \<Rightarrow> error + vta_record list" where
  "read_file fs p = (case fs p of None \<Rightarrow> Inl FileNotFoundError | Some recs \<Rightarrow> Inr recs)"

text \<open>
  The call of \<open>calculate_coverage\<close> is handed to \<open>run_in_executor\<close> and its result is
  stored as it is: unlike the two calls before it, it is not awaited.
\<close>

definition reassignment ::
  "'v run_patho_fn \<Rightarrow> ('v, 'h) write_report_fn \<Rightarrow> calculate_coverage_fn \<Rightarrow>
   files \<Rightarrow> intermediate \<Rightarrow> 'h results_dict \<Rightarrow> path \<Rightarrow> index
     \<Rightarrow> error + files \<times> intermediate \<times> 'h results_dict" where
  "reassignment run_patho write_report calculate_coverage fs im res isolate_path idx =
     (let reassigned_path = path_div isolate_path ''reassigned.vta'' in
      case isolate_vta_path im of
        None \<Rightarrow> Inl AttributeError
      | Some vta_path \<Rightarrow>
          (case read_file fs vta_path of
             Inl e \<Rightarrow> Inl e
           | Inr recs \<Rightarrow>
               (case await (run_in_executor (run_patho recs)) of
                  Inl e \<Rightarrow> Inl e
                | Inr (out, reassigned) \<Rightarrow>
                    (let fs1 = fs(reassigned_path \<mapsto> reassigned);
                         count = length (reads out);
                         report_path = path_div isolate_path ''report.tsv''
                     in
                     case await (run_in_executor
                            (write_report report_path (pi_final out) (refs out) count (init_pi out)
                               (best_hit_initial out) (best_hit_initial_reads out)
                               (best_hit_final out) (best_hit_final_reads out)
                               (level_1_initial out) (level_2_initial out)
                               (level_1_final out) (level_2_final out))) of
                       Inl e \<Rightarrow> Inl e
                     | Inr report \<Rightarrow>
                         (let cov = run_in_executor (calculate_coverage reassigned (lengths im));
                              im1 = im\<lparr>coverage := Some cov\<rparr>
                          in
                          case map_sum (attach_hit idx cov) report of
                            Inl e \<Rightarrow> Inl e
                          | Inr hits \<Rightarrow>
                              Inr (fs1, im1,
                                   res\<lparr>ready := Some True, read_count := Some count,
                                       results := Some hits\<rparr>))))))"

subsection \<open>Properties of lines\<close>

definition is_header :: "string \<Rightarrow> bool" where
  "is_header line \<longleftrightarrow> line \<noteq> [] \<and> (hd line = CHR ''@'' \<or> hd line = CHR ''#'')"

text \<open>The flag field of the line has bit \<open>0x4\<close> set.\<close>

definition unmapped_bit :: "string \<Rightarrow> bool" where
  "unmapped_bit line =
     (case py_int (split_tab line ! 1) of None \<Rightarrow> False | Some flag \<Rightarrow> flag AND 4 = 4)"

definition line_ref_id :: "string \<Rightarrow> string" where
  "line_ref_id line = split_tab line ! 2"

text \<open>
  A line that the targeted-pass and host-subtraction callbacks read as the record of a
  mapped read: it is not skipped as a header, it has a flag field that is an integer with
  bit \<open>0x4\<close> clear, and a reference field other than \<open>*\<close>.
\<close>

definition mapped_record :: "string \<Rightarrow> bool" where
  "mapped_record line \<longleftrightarrow>
     line \<noteq> [] \<and> hd line \<noteq> CHR ''@'' \<and> line \<noteq> ''#'' \<and>
     3 \<le> length (split_tab line) \<and>
     (case py_int (split_tab line ! 1) of None \<Rightarrow> False | Some flag \<Rightarrow> flag AND 4 \<noteq> 4) \<and>
     split_tab line ! 2 \<noteq> ''*''"

text \<open>
  A malformed line: no flag field, a flag field that is not an integer, or a mapped flag
  and no reference field.
\<close>

definition malformed :: "string \<Rightarrow> bool" where
  "malformed line =
     (let fields = split_tab line in
      length fields < 2 \<or>
      (case py_int (fields ! 1) of
         None \<Rightarrow> True
       | Some flag \<Rightarrow> flag AND 4 \<noteq> 4 \<and> length fields < 3))"

subsection \<open>Concrete inputs\<close>

text \<open>
  Lines of aligner output are tab-separated; \<open>mapped_line\<close> is a line of a mapped read
  (flag 0) with the given read id, reference id and score tag.
\<close>

definition sam_line :: "string list \<Rightarrow> string" where
  "sam_line cols = join_with [CHR 0x09] cols"

definition mapped_line :: "string \<Rightarrow> string \<Rightarrow> string \<Rightarrow> string" where
  "mapped_line rid ref tag =
     sam_line [rid, ''0'', ref, ''7'', ''42'', ''4M'', ''*'', ''0'', ''0'', ''ACGT'', ''IIII'', tag]"

definition work_isolates :: path where
  "work_isolates = Path [''work'', ''isolates'']"

text \<open>
  An index with one sequence \<open>seq1\<close> of OTU \<open>otu1\<close>. Its \<open>write_isolate_fasta\<close> opens
  the path it is given, as Python's \<open>open\<close> does: anything that is not a path or a
  string is a \<open>TypeError\<close>.
\<close>

definition sample_index :: index where
  "sample_index =
     \<lparr>index_path = Path [''work'', ''reference''],
      get_otu_id_by_sequence_id = (\<lambda>s. if s = ''seq1'' then Inr ''otu1'' else Inl KeyError),
      manifest = [''otu1'' \<mapsto> 3],
      index_write_isolate_fasta =
        (\<lambda>otu_ids p proc. case p of PTuple _ \<Rightarrow> Inl TypeError | _ \<Rightarrow> Inr [''seq1'' \<mapsto> 4])\<rparr>"

definition sample_record :: "string \<Rightarrow> rat \<Rightarrow> vta_record" where
  "sample_record rid s =
     \<lparr>read_id = rid, reference_id = ''seq1'', position = ''1'', read_length = 4, score = s\<rparr>"

definition sample_files :: files where
  "sample_files =
     [path_div work_isolates ''to_isolates.vta'' \<mapsto>
        [sample_record ''r1'' (9 / 10), sample_record ''r3'' (5 / 10)]]"

definition mapped_intermediate :: intermediate where
  "mapped_intermediate =
     new_intermediate
       \<lparr>to_otus := [''seq1''],
        lengths := Some [''seq1'' \<mapsto> 4],
        isolate_vta_path := Some (path_div work_isolates ''to_isolates.vta''),
        isolate_mapped_fastq_path := Some (path_div work_isolates ''mapped.fastq''),
        isolate_bt2_path := Some (path_div work_isolates ''isolates''),
        to_subtraction := Some [''r3'' \<mapsto> 6 / 10]\<rparr>"

definition empty_results :: "nat results_dict" where
  "empty_results = \<lparr>subtracted_count = None, ready = None, read_count = None, results = None\<rparr>"

text \<open>Collaborators for \<open>reassignment\<close>: one reference \<open>seq1\<close> in the report.\<close>

definition sample_run_patho :: "unit run_patho_fn" where
  "sample_run_patho recs =
     Inr (\<lparr>best_hit_initial_reads = (), best_hit_initial = (), level_1_initial = (),
           level_2_initial = (), best_hit_final_reads = (), best_hit_final = (),
           level_1_final = (), level_2_final = (), init_pi = (), pi_final = (), refs = (),
           reads = remdups (map read_id recs)\<rparr>, recs)"

definition sample_write_report :: "(unit, nat) write_report_fn" where
  "sample_write_report report_path p r count ip bhi bhir bhf bhfr l1i l2i l1f l2f =
     Inr [(''seq1'', count)]"

definition sample_calculate_coverage :: calculate_coverage_fn where
  "sample_calculate_coverage recs lens = Inr [''seq1'' \<mapsto> [1, 1, 0, 2]]"



section \<open>Properties\<close>

lemmas line_eval =
  sam_line_def mapped_line_def py_int_def strip_def is_space_def is_digit_def digit_val_def
  int_max_str_digits_def p_score_cutoff_def

subsection \<open>The aligner commands\<close>

lemma digit_char_digit: "d < 10 \<Longrightarrow> digit_char d \<in> set ''0123456789''"
  unfolding digit_char_def by (rule nth_mem) simp

lemma str_nat_digits: "set (str_nat n) \<subseteq> set ''0123456789''"
proof (induction n rule: str_nat.induct)
  case (1 n)
  show ?case
  proof (cases "n < 10")
    case True
    then have "str_nat n = [digit_char n]"
      by (subst str_nat.simps) simp
    with True digit_char_digit [of n] show ?thesis
      by simp
  next
    case False
    have "n mod 10 < 10" by simp
    then have d: "digit_char (n mod 10) \<in> set ''0123456789''"
      by (rule digit_char_digit)
    from False have "str_nat n = str_nat (n div 10) @ [digit_char (n mod 10)]"
      by (subst str_nat.simps) simp
    with False 1 d show ?thesis
      by simp
  qed
qed

lemma str_int_not_local: "str_int i \<noteq> ''--local''"
proof
  assume eq: "str_int i = ''--local''"
  have nodash: "CHR ''-'' \<notin> set (str_nat k)" for k
    using str_nat_digits [of k] by auto
  show False
  proof (cases "i < 0")
    case True
    with eq have "str_nat (nat (- i)) = ''-local''"
      by (simp add: str_int_def)
    then have "CHR ''-'' \<in> set (str_nat (nat (- i)))" by simp
    with nodash show False by blast
  next
    case False
    with eq have "str_nat (nat i) = ''--local''"
      by (simp add: str_int_def)
    then have "CHR ''-'' \<in> set (str_nat (nat i))" by simp
    with nodash show False by blast
  qed
qed

lemma comma_not_local: "a @ '','' @ b \<noteq> ''--local''"
proof
  assume "a @ '','' @ b = ''--local''"
  moreover have "CHR '','' \<in> set (a @ '','' @ b)" by simp
  ultimately have "CHR '','' \<in> set ''--local''" by (simp only:)
  then show False by simp
qed

text \<open>
  The targeted pass and the host-subtraction pass name \<open>--local\<close>; the targeted pass
  also gives \<open>-k 100\<close> and \<open>--al\<close> with the path of the mapped reads, and the
  host-subtraction pass reads that path with \<open>-U\<close>.
\<close>

lemma map_isolates_command_flags:
  "PStr ''--local'' \<in> set (map_isolates_command proc fq ref rd)"
  "map_isolates_command proc fq ref rd ! 11 = PStr ''-k''"
  "map_isolates_command proc fq ref rd ! 12 = PStr ''100''"
  "map_isolates_command proc fq ref rd ! 13 = PStr ''--al''"
  "map_isolates_command proc fq ref rd ! 14 = PPath fq"
  by (simp_all add: map_isolates_command_def)

lemma map_subtractions_command_flags:
  "PStr ''--local'' \<in> set (map_subtractions_command proc sub fq)"
  "map_subtractions_command proc sub fq ! 8 = PStr ''-U''"
  "map_subtractions_command proc sub fq ! 9 = PPath fq"
  by (simp_all add: map_subtractions_command_def)

lemma first_pass_command_joined:
  "map_default_isolates_command proc idx rd ! 3 = PStr ''--no-unal--local''"
  by (simp add: map_default_isolates_command_def)

text \<open>
  C8: every mapping invocation passes \<open>--local\<close> as one of its arguments. The first pass
  does not: for every thread count, index and pair of read files, no argument of its
  command is the string \<open>--local\<close> (the fourth argument is \<open>--no-unal--local\<close>).
\<close>

theorem first_pass_command_lacks_local:
  "PStr ''--local'' \<notin> set (map_default_isolates_command proc idx rd)"
  using str_int_not_local [of proc] comma_not_local [of "str_path (left rd)" "str_path (right rd)"]
  by (simp add: map_default_isolates_command_def)

subsection \<open>Header lines\<close>

lemma stdout_handler_default_header:
  "is_header line \<Longrightarrow> stdout_handler_default sc c line = Inr None"
  by (auto simp: is_header_def stdout_handler_default_def)

lemma stdout_handler_isolates_at:
  "line \<noteq> [] \<Longrightarrow> hd line = CHR ''@'' \<Longrightarrow> stdout_handler_isolates sc c line = Inr None"
  by (simp add: stdout_handler_isolates_def)

lemma stdout_handler_subtraction_at:
  "line \<noteq> [] \<Longrightarrow> hd line = CHR ''@'' \<Longrightarrow> stdout_handler_subtraction sc line = Inr None"
  by (simp add: stdout_handler_subtraction_def)

lemma hash_comment_raises:
  "stdout_handler_isolates as_tag_score p_score_cutoff ''#comment'' = Inl IndexError"
  "stdout_handler_subtraction as_tag_score ''#comment'' = Inl IndexError"
  by (simp_all add: stdout_handler_isolates_def stdout_handler_subtraction_def)

text \<open>
  C4: in every mapping stage a line that starts with \<open>@\<close> or \<open>#\<close> is rejected and
  produces no accepted record. The callbacks of the targeted pass and of the
  host-subtraction pass compare the whole line with \<open>#\<close>: a line that starts with \<open>#\<close>
  and has the fields of a mapped read is written to the alignment file, and is recorded
  in the host score table.
\<close>

theorem hash_line_not_rejected:
  "stdout_handler_isolates as_tag_score p_score_cutoff (mapped_line ''#r1'' ''ref1'' ''AS:i:8'')
     = Inr (Some \<lparr>read_id = ''#r1'', reference_id = ''ref1'', position = ''7'',
                   read_length = 4, score = 8\<rparr>)
   \<and> stdout_handler_subtraction as_tag_score (mapped_line ''#r1'' ''ref1'' ''AS:i:8'')
     = Inr (Some (''#r1'', 8))"
  by (simp add: stdout_handler_isolates_def stdout_handler_subtraction_def line_eval)

subsection \<open>The hits of \<open>reassignment\<close>\<close>

lemma attach_hit_raises:
  "get_otu_id_by_sequence_id idx (fst item) = Inr otu_id \<Longrightarrow> manifest idx otu_id = Some v \<Longrightarrow>
     attach_hit idx cov item = Inl TypeError"
  by (simp add: attach_hit_def subscript_awaitable_def)

lemma attach_hit_never_returns: "attach_hit idx cov item \<noteq> Inr h"
  by (simp add: attach_hit_def subscript_awaitable_def Let_def split: sum.splits option.splits)

lemma no_hits_from_report:
  "map_sum (attach_hit idx cov) report = Inr hits \<Longrightarrow> report = [] \<and> hits = []"
  by (cases report) (auto simp: attach_hit_never_returns split: sum.splits)

text \<open>
  C1: for every reference in the reassignment output the step produces a hit with its
  statistics, its coverage and depth and its OTU. The coverage table is never awaited:
  with one reference \<open>seq1\<close> in the report, known to the index, and a coverage
  computation that has an array for it, the step raises \<open>TypeError\<close> at the lookup of
  the array and produces no hit.
\<close>

theorem reassignment_raises_type_error:
  "reassignment sample_run_patho sample_write_report sample_calculate_coverage
     sample_files mapped_intermediate empty_results work_isolates sample_index = Inl TypeError"
  by (simp add: reassignment_def sample_run_patho_def sample_write_report_def sample_files_def
       mapped_intermediate_def new_intermediate_def work_isolates_def read_file_def
       run_in_executor_def attach_hit_def sample_index_def subscript_awaitable_def)

subsection \<open>What the callbacks accept and where they raise\<close>

lemma default_accept:
  "stdout_handler_default sc c line = Inr (Some r) \<Longrightarrow>
     \<not> unmapped_bit line \<and> line_ref_id line \<noteq> ''*'' \<and> r = line_ref_id line \<and>
     (\<exists>s. sc (split_tab line) = Inr s \<and> \<not> s < c)"
  by (auto simp: stdout_handler_default_def unmapped_bit_def line_ref_id_def Let_def
           split: if_splits option.splits sum.splits)

lemma isolates_accept:
  "stdout_handler_isolates sc c line = Inr (Some v) \<Longrightarrow>
     \<not> unmapped_bit line \<and> line_ref_id line \<noteq> ''*'' \<and> reference_id v = line_ref_id line \<and>
     sc (split_tab line) = Inr (score v) \<and> \<not> score v < c"
  by (auto simp: stdout_handler_isolates_def unmapped_bit_def line_ref_id_def Let_def
           split: if_splits option.splits sum.splits)

lemma subtraction_accept:
  "stdout_handler_subtraction sc line = Inr (Some kv) \<Longrightarrow>
     \<not> unmapped_bit line \<and> line_ref_id line \<noteq> ''*'' \<and> sc (split_tab line) = Inr (snd kv)"
  by (auto simp: stdout_handler_subtraction_def unmapped_bit_def line_ref_id_def Let_def
           split: if_splits option.splits sum.splits)

lemma below_cutoff_rejected:
  assumes "mapped_record line" and "sc (split_tab line) = Inr s" and "s < c"
  shows "stdout_handler_default sc c line = Inr None"
    and "stdout_handler_isolates sc c line = Inr None"
  using assms
  by (auto simp: mapped_record_def stdout_handler_default_def stdout_handler_isolates_def Let_def
           split: option.splits)

lemma subtraction_records_every_score:
  assumes "mapped_record line" and "sc (split_tab line) = Inr s"
  shows "stdout_handler_subtraction sc line = Inr (Some (split_tab line ! 0, s))"
  using assms
  by (auto simp: mapped_record_def stdout_handler_subtraction_def Let_def split: option.splits)

text \<open>
  C5, as stated: no mapping stage accepts a record whose score is below the score
  cutoff. The only cutoff of the workflow is the fixture \<open>p_score_cutoff\<close>; the step
  \<open>map_subtractions\<close> does not take it. A line with score 0 is rejected by the first-pass
  and the targeted-pass callbacks under that cutoff, and recorded by the host-subtraction
  callback.
\<close>

theorem subtraction_accepts_below_cutoff:
  "stdout_handler_subtraction as_tag_score (mapped_line ''r2'' ''host1'' ''AS:i:0'')
     = Inr (Some (''r2'', 0))
   \<and> (0 :: rat) < p_score_cutoff
   \<and> stdout_handler_default as_tag_score p_score_cutoff (mapped_line ''r2'' ''host1'' ''AS:i:0'')
     = Inr None
   \<and> stdout_handler_isolates as_tag_score p_score_cutoff (mapped_line ''r2'' ''host1'' ''AS:i:0'')
     = Inr None"
  by (simp add: stdout_handler_subtraction_def stdout_handler_default_def
        stdout_handler_isolates_def line_eval)

text \<open>
  C5, amended: a record accepted by any of the three callbacks comes from a line whose
  unmapped flag bit is clear and whose reference id is not \<open>*\<close>; a record accepted by
  the first-pass or the targeted-pass callback has a score that is not below the cutoff,
  and both return without effect on a mapped line whose score is below it. The
  host-subtraction callback applies no cutoff: on every mapped line it records the score
  it extracts, whatever the score.
\<close>

theorem filters_accept_only_mapped:
  "(stdout_handler_default sc c line = Inr (Some r) \<longrightarrow>
      \<not> unmapped_bit line \<and> line_ref_id line \<noteq> ''*'' \<and> r = line_ref_id line \<and>
      (\<exists>s. sc (split_tab line) = Inr s \<and> \<not> s < c))
   \<and> (stdout_handler_isolates sc c line = Inr (Some v) \<longrightarrow>
      \<not> unmapped_bit line \<and> line_ref_id line \<noteq> ''*'' \<and> reference_id v = line_ref_id line \<and>
      sc (split_tab line) = Inr (score v) \<and> \<not> score v < c)
   \<and> (stdout_handler_subtraction sc line = Inr (Some kv) \<longrightarrow>
      \<not> unmapped_bit line \<and> line_ref_id line \<noteq> ''*'' \<and> sc (split_tab line) = Inr (snd kv))
   \<and> (mapped_record line \<and> sc (split_tab line) = Inr s \<and> s < c \<longrightarrow>
      stdout_handler_default sc c line = Inr None \<and>
      stdout_handler_isolates sc c line = Inr None)
   \<and> (mapped_record line \<and> sc (split_tab line) = Inr s \<longrightarrow>
      stdout_handler_subtraction sc line = Inr (Some (split_tab line ! 0, s)))"
  using default_accept [of sc c line r] isolates_accept [of sc c line v]
    subtraction_accept [of sc line kv] below_cutoff_rejected [of line sc s c]
    subtraction_records_every_score [of line sc s]
  by blast

lemma sample_line_accepted:
  "stdout_handler_default as_tag_score p_score_cutoff (mapped_line ''r1'' ''ref1'' ''AS:i:8'')
     = Inr (Some ''ref1'')"
  "stdout_handler_isolates as_tag_score p_score_cutoff (mapped_line ''r1'' ''ref1'' ''AS:i:8'')
     = Inr (Some \<lparr>read_id = ''r1'', reference_id = ''ref1'', position = ''7'',
                   read_length = 4, score = 8\<rparr>)"
  "stdout_handler_subtraction as_tag_score (mapped_line ''r1'' ''ref1'' ''AS:i:8'')
     = Inr (Some (''r1'', 8))"
  by (simp_all add: stdout_handler_default_def stdout_handler_isolates_def
        stdout_handler_subtraction_def line_eval)

lemma low_line_mapped:
  "mapped_record (mapped_line ''r2'' ''host1'' ''AS:i:0'')"
  "as_tag_score (split_tab (mapped_line ''r2'' ''host1'' ''AS:i:0'')) = Inr 0"
  "split_tab (mapped_line ''r2'' ''host1'' ''AS:i:0'') ! 0 = ''r2''"
  by (simp_all add: mapped_record_def line_eval)

theorem filters_accept_only_mapped_witness:
  "stdout_handler_default as_tag_score p_score_cutoff (mapped_line ''r1'' ''ref1'' ''AS:i:8'')
     = Inr (Some ''ref1'')
   \<and> stdout_handler_isolates as_tag_score p_score_cutoff (mapped_line ''r1'' ''ref1'' ''AS:i:8'')
     = Inr (Some \<lparr>read_id = ''r1'', reference_id = ''ref1'', position = ''7'',
                   read_length = 4, score = 8\<rparr>)
   \<and> stdout_handler_subtraction as_tag_score (mapped_line ''r1'' ''ref1'' ''AS:i:8'')
     = Inr (Some (''r1'', 8))
   \<and> \<not> unmapped_bit (mapped_line ''r1'' ''ref1'' ''AS:i:8'')
   \<and> line_ref_id (mapped_line ''r1'' ''ref1'' ''AS:i:8'') = ''ref1''
   \<and> as_tag_score (split_tab (mapped_line ''r1'' ''ref1'' ''AS:i:8'')) = Inr 8
   \<and> \<not> (8 :: rat) < p_score_cutoff
   \<and> mapped_record (mapped_line ''r2'' ''host1'' ''AS:i:0'')
   \<and> as_tag_score (split_tab (mapped_line ''r2'' ''host1'' ''AS:i:0'')) = Inr 0
   \<and> (0 :: rat) < p_score_cutoff
   \<and> stdout_handler_default as_tag_score p_score_cutoff (mapped_line ''r2'' ''host1'' ''AS:i:0'')
     = Inr None
   \<and> stdout_handler_isolates as_tag_score p_score_cutoff (mapped_line ''r2'' ''host1'' ''AS:i:0'')
     = Inr None
   \<and> stdout_handler_subtraction as_tag_score (mapped_line ''r2'' ''host1'' ''AS:i:0'')
     = Inr (Some (''r2'', 0))"
proof -
  have c: "(0 :: rat) < p_score_cutoff" by (simp add: p_score_cutoff_def)
  note high = filters_accept_only_mapped [of as_tag_score p_score_cutoff
      "mapped_line ''r1'' ''ref1'' ''AS:i:8''" "''ref1''"
      "\<lparr>read_id = ''r1'', reference_id = ''ref1'', position = ''7'', read_length = 4, score = 8\<rparr>"
      "(''r1'', 8)" 0]
  note low = filters_accept_only_mapped [of as_tag_score p_score_cutoff
      "mapped_line ''r2'' ''host1'' ''AS:i:0''" "''x''"
      "\<lparr>read_id = ''x'', reference_id = ''x'', position = ''x'', read_length = 0, score = 0\<rparr>"
      "(''x'', 0)" 0]
  from low low_line_mapped c have l:
    "stdout_handler_default as_tag_score p_score_cutoff (mapped_line ''r2'' ''host1'' ''AS:i:0'')
       = Inr None"
    "stdout_handler_isolates as_tag_score p_score_cutoff (mapped_line ''r2'' ''host1'' ''AS:i:0'')
       = Inr None"
    "stdout_handler_subtraction as_tag_score (mapped_line ''r2'' ''host1'' ''AS:i:0'')
       = Inr (Some (''r2'', 0))"
    by simp_all
  from high sample_line_accepted have h:
    "\<not> unmapped_bit (mapped_line ''r1'' ''ref1'' ''AS:i:8'')"
    "line_ref_id (mapped_line ''r1'' ''ref1'' ''AS:i:8'') = ''ref1''"
    "as_tag_score (split_tab (mapped_line ''r1'' ''ref1'' ''AS:i:8'')) = Inr 8"
    "\<not> (8 :: rat) < p_score_cutoff"
    by simp_all
  from sample_line_accepted h low_line_mapped(1,2) c l show ?thesis
    by simp
qed

lemma default_malformed:
  "malformed line \<Longrightarrow> \<not> is_header line \<Longrightarrow>
     stdout_handler_default sc c line = Inl IndexError \<or> stdout_handler_default sc c line = Inl ValueError"
  by (auto simp: stdout_handler_default_def malformed_def is_header_def Let_def
           split: if_splits option.splits sum.splits)

lemma isolates_malformed:
  "malformed line \<Longrightarrow> \<not> is_header line \<Longrightarrow>
     stdout_handler_isolates sc c line = Inl IndexError \<or> stdout_handler_isolates sc c line = Inl ValueError"
  by (auto simp: stdout_handler_isolates_def malformed_def is_header_def Let_def
           split: if_splits option.splits sum.splits)

lemma subtraction_malformed:
  "malformed line \<Longrightarrow> \<not> is_header line \<Longrightarrow>
     stdout_handler_subtraction sc line = Inl IndexError \<or> stdout_handler_subtraction sc line = Inl ValueError"
  by (auto simp: stdout_handler_subtraction_def malformed_def is_header_def Let_def
           split: if_splits option.splits sum.splits)

text \<open>
  Flag fields that \<open>int\<close> refuses although they hold digits: a separator character
  before the digits, and more digits than the limit.
\<close>

lemma separator_flag_not_integer:
  "py_int [CHR 0x1F, CHR ''0''] = None"
  "stdout_handler_subtraction as_tag_score (sam_line [''r1'', [CHR 0x1F, CHR ''0''], ''ref1''])
     = Inl ValueError"
  by (simp_all add: stdout_handler_subtraction_def line_eval)

lemma long_flag_not_integer:
  assumes "int_max_str_digits < length (filter is_digit (strip s))"
  shows "py_int s = None"
proof (cases "strip s")
  case Nil
  then show ?thesis by (simp add: py_int_def)
next
  case (Cons c cs)
  with assms have "int_max_str_digits < length (filter is_digit (c # cs))" by simp
  then show ?thesis
    unfolding py_int_def Cons by (simp only: list.case if_True)
qed

text \<open>
  C6, as stated: a malformed line is skipped without raising. A line without a tab makes
  the first-pass callback raise \<open>IndexError\<close>; a line whose flag field is not an integer
  makes the targeted-pass callback raise \<open>ValueError\<close>.
\<close>

theorem malformed_line_not_skipped:
  "stdout_handler_default as_tag_score p_score_cutoff ''r1 with no tab'' = Inl IndexError
   \<and> stdout_handler_isolates as_tag_score p_score_cutoff (sam_line [''r1'', ''x'', ''ref1''])
       = Inl ValueError"
  by (simp add: stdout_handler_default_def stdout_handler_isolates_def line_eval)

text \<open>
  C6, amended: a line that is not a header and is malformed (no flag field, a flag field
  that \<open>int\<close> rejects, or a mapped flag and no reference field) makes each of the three
  callbacks raise \<open>IndexError\<close> or \<open>ValueError\<close>. The callback raises before it reaches
  its sink, so the line adds nothing to the state of the step; nothing in the callbacks
  catches the exception.
\<close>

theorem malformed_line_raises:
  assumes "malformed line" and "\<not> is_header line"
  shows "(stdout_handler_default sc c line = Inl IndexError
            \<or> stdout_handler_default sc c line = Inl ValueError)
       \<and> (stdout_handler_isolates sc c line = Inl IndexError
            \<or> stdout_handler_isolates sc c line = Inl ValueError)
       \<and> (stdout_handler_subtraction sc line = Inl IndexError
            \<or> stdout_handler_subtraction sc line = Inl ValueError)"
  using assms default_malformed [of line sc c] isolates_malformed [of line sc c]
    subtraction_malformed [of line sc]
  by blast

lemma feed_lines_raises:
  "handler line = Inl e \<Longrightarrow> \<forall>l\<in>set pre. \<exists>r. handler l = Inr r \<Longrightarrow>
     feed_lines handler sink (pre @ line # post) st = Inl e"
  by (induction pre arbitrary: st) (auto split: sum.splits option.splits)

theorem malformed_line_raises_witness:
  "malformed ''r1 with no tab'' \<and> \<not> is_header ''r1 with no tab''
   \<and> stdout_handler_default as_tag_score p_score_cutoff ''r1 with no tab'' = Inl IndexError
   \<and> stdout_handler_isolates as_tag_score p_score_cutoff ''r1 with no tab'' = Inl IndexError
   \<and> stdout_handler_subtraction as_tag_score ''r1 with no tab'' = Inl IndexError"
proof -
  have m: "malformed ''r1 with no tab''"
    by (simp add: malformed_def)
  have h: "\<not> is_header ''r1 with no tab''"
    by (simp add: is_header_def)
  have v: "stdout_handler_default as_tag_score p_score_cutoff ''r1 with no tab'' \<noteq> Inl ValueError"
     "stdout_handler_isolates as_tag_score p_score_cutoff ''r1 with no tab'' \<noteq> Inl ValueError"
     "stdout_handler_subtraction as_tag_score ''r1 with no tab'' \<noteq> Inl ValueError"
    by (simp_all add: stdout_handler_default_def stdout_handler_isolates_def
          stdout_handler_subtraction_def)
  from malformed_line_raises [OF m h, of as_tag_score p_score_cutoff] m h v show ?thesis
    by blast
qed

subsection \<open>The isolate reference\<close>

lemma write_isolate_fasta_stores_tuple:
  "write_isolate_fasta im idx proc isolate_path = Inr im' \<Longrightarrow>
     isolate_fasta_path im' = Some (PTuple [PPath (path_div isolate_path ''isolate_index.fa'')])"
  by (auto simp: write_isolate_fasta_def Let_def split: sum.splits)

lemma build_isolate_index_argument:
  "build_isolate_index im isolate_path proc = Inr cmd \<Longrightarrow> isolate_fasta_path im = Some (cmd ! 3)"
  by (auto simp: build_isolate_index_def split: option.splits)

text \<open>
  C3: the step writes the candidates' sequences to a single reference file, the index
  build is invoked on that same file, and the length table is stored. The value that the
  step passes as the file, stores, and later puts into the build command is a tuple of one
  path: an index that opens what it is given raises \<open>TypeError\<close> and no length table is
  stored; with an index that accepts anything, the fourth argument of \<open>bowtie2-build\<close> is
  the tuple.
\<close>

theorem isolate_fasta_path_is_tuple:
  "write_isolate_fasta (new_intermediate\<lparr>to_otus := [''seq1'']\<rparr>) sample_index 2 work_isolates
     = Inl TypeError
   \<and> write_isolate_fasta (new_intermediate\<lparr>to_otus := [''seq1'']\<rparr>)
        (sample_index\<lparr>index_write_isolate_fasta := (\<lambda>otu_ids p proc. Inr [''seq1'' \<mapsto> 4])\<rparr>)
        2 work_isolates
     = Inr (new_intermediate
             \<lparr>to_otus := [''seq1''], lengths := Some [''seq1'' \<mapsto> 4],
              isolate_fasta_path :=
                Some (PTuple [PPath (Path [''work'', ''isolates'', ''isolate_index.fa''])])\<rparr>)
   \<and> build_isolate_index
        (new_intermediate
           \<lparr>to_otus := [''seq1''], lengths := Some [''seq1'' \<mapsto> 4],
            isolate_fasta_path :=
              Some (PTuple [PPath (Path [''work'', ''isolates'', ''isolate_index.fa''])])\<rparr>)
        work_isolates 2
     = Inr [PStr ''bowtie2-build'', PStr ''--threads'', PStr ''2'',
            PTuple [PPath (Path [''work'', ''isolates'', ''isolate_index.fa''])],
            PPath (Path [''work'', ''isolates'', ''isolates''])]"
  by (simp add: write_isolate_fasta_def build_isolate_index_def sample_index_def
        new_intermediate_def work_isolates_def str_int_def str_nat.simps [of 2] digit_char_def)

subsection \<open>The host score table\<close>

lemma feed_lines_append:
  "feed_lines handler sink (pre @ rest) st =
     (case feed_lines handler sink pre st of
        Inl e \<Rightarrow> Inl e
      | Inr st' \<Rightarrow> feed_lines handler sink rest st')"
  by (induction pre arbitrary: st) (auto split: sum.splits option.splits)

lemma feed_store_untouched:
  "feed_lines (stdout_handler_subtraction sc) store_score post t = Inr table \<Longrightarrow>
     \<forall>l\<in>set post. \<forall>s'. stdout_handler_subtraction sc l \<noteq> Inr (Some (rid, s')) \<Longrightarrow>
     table rid = t rid"
proof (induction post arbitrary: t)
  case Nil
  then show ?case by simp
next
  case (Cons l post)
  show ?case
  proof (cases "stdout_handler_subtraction sc l")
    case (Inl e)
    with Cons.prems(1) show ?thesis by simp
  next
    case (Inr r)
    show ?thesis
    proof (cases r)
      case None
      with Inr Cons show ?thesis by simp
    next
      case (Some kv)
      with Inr Cons.prems(2) have ne: "fst kv \<noteq> rid"
        by (cases kv) auto
      from Some Inr Cons.prems(1)
      have "feed_lines (stdout_handler_subtraction sc) store_score post (store_score kv t) = Inr table"
        by simp
      with Cons.IH Cons.prems(2) have "table rid = store_score kv t rid"
        by simp
      with ne show ?thesis by (simp add: store_score_def)
    qed
  qed
qed

lemma feed_store_last:
  assumes "feed_lines (stdout_handler_subtraction sc) store_score (pre @ line # post) t = Inr table"
    and "stdout_handler_subtraction sc line = Inr (Some (rid, s))"
    and "\<forall>l\<in>set post. \<forall>s'. stdout_handler_subtraction sc l \<noteq> Inr (Some (rid, s'))"
  shows "table rid = Some s"
proof -
  from assms(1) obtain t1 where
    t1: "feed_lines (stdout_handler_subtraction sc) store_score (line # post) t1 = Inr table"
    by (auto simp: feed_lines_append split: sum.splits)
  with assms(2)
  have "feed_lines (stdout_handler_subtraction sc) store_score post (store_score (rid, s) t1) = Inr table"
    by simp
  from feed_store_untouched [OF this assms(3)] show ?thesis
    by (simp add: store_score_def)
qed

text \<open>
  C2, as stated: the table retains the maximum score per read id, ties keeping the
  first-seen value. Two accepted records of read \<open>r1\<close> with scores 12 and 7 leave 7 in
  the table.
\<close>

theorem host_table_keeps_last_not_max:
  "stdout_handler_subtraction as_tag_score (mapped_line ''r1'' ''host1'' ''AS:i:12'')
     = Inr (Some (''r1'', 12))
   \<and> stdout_handler_subtraction as_tag_score (mapped_line ''r1'' ''host2'' ''AS:i:7'')
     = Inr (Some (''r1'', 7))
   \<and> map_subtractions
        (\<lambda>cmd. [mapped_line ''r1'' ''host1'' ''AS:i:12'', mapped_line ''r1'' ''host2'' ''AS:i:7''])
        as_tag_score mapped_intermediate \<lparr>subtraction_path = Path [''work'', ''host'']\<rparr> 2
     = Inr (mapped_intermediate\<lparr>to_subtraction := Some [''r1'' \<mapsto> 7]\<rparr>)
   \<and> (7 :: rat) < 12"
  by (simp add: map_subtractions_def stdout_handler_subtraction_def line_eval store_score_def
        mapped_intermediate_def new_intermediate_def)

text \<open>
  C2, amended: the step maps the file of mapped reads set by the targeted pass (the
  argument after \<open>-U\<close>), and for every read id the table holds the score of the last
  accepted record with that id: each accepted record overwrites the entry of its read.
\<close>

theorem host_table_keeps_last:
  assumes "isolate_mapped_fastq_path im = Some fq"
    and "run (map_subtractions_command proc sub fq) = pre @ line # post"
    and "map_subtractions run sc im sub proc = Inr im'"
    and "stdout_handler_subtraction sc line = Inr (Some (rid, s))"
    and "\<forall>l\<in>set post. \<forall>s'. stdout_handler_subtraction sc l \<noteq> Inr (Some (rid, s'))"
  shows "map_subtractions_command proc sub fq ! 9 = PPath fq
       \<and> (\<exists>table. to_subtraction im' = Some table \<and> table rid = Some s)"
proof -
  from assms(1-3) obtain table where
    f: "feed_lines (stdout_handler_subtraction sc) store_score (pre @ line # post) Map.empty
          = Inr table"
    and t: "im' = im\<lparr>to_subtraction := Some table\<rparr>"
    by (auto simp: map_subtractions_def split: sum.splits)
  from feed_store_last [OF f assms(4,5)] have "table rid = Some s" .
  with t show ?thesis
    by (simp add: map_subtractions_command_def)
qed

theorem host_table_keeps_last_witness:
  "map_subtractions
        (\<lambda>cmd. [mapped_line ''r1'' ''host1'' ''AS:i:12'', mapped_line ''r1'' ''host2'' ''AS:i:7''])
        as_tag_score mapped_intermediate \<lparr>subtraction_path = Path [''work'', ''host'']\<rparr> 2
     = Inr (mapped_intermediate\<lparr>to_subtraction := Some [''r1'' \<mapsto> 7]\<rparr>)
   \<and> (\<exists>table. to_subtraction (mapped_intermediate\<lparr>to_subtraction := Some [''r1'' \<mapsto> 7]\<rparr>)
                 = Some table \<and> table ''r1'' = Some 7)"
proof -
  let ?run = "\<lambda>cmd :: py_val list.
      [mapped_line ''r1'' ''host1'' ''AS:i:12'', mapped_line ''r1'' ''host2'' ''AS:i:7'']"
  let ?sub = "\<lparr>subtraction_path = Path [''work'', ''host'']\<rparr>"
  have 1: "isolate_mapped_fastq_path mapped_intermediate
             = Some (path_div work_isolates ''mapped.fastq'')"
    by (simp add: mapped_intermediate_def new_intermediate_def)
  have 2: "?run (map_subtractions_command 2 ?sub (path_div work_isolates ''mapped.fastq''))
             = [mapped_line ''r1'' ''host1'' ''AS:i:12''] @ mapped_line ''r1'' ''host2'' ''AS:i:7'' # []"
    by simp
  have 3: "map_subtractions ?run as_tag_score mapped_intermediate ?sub 2
             = Inr (mapped_intermediate\<lparr>to_subtraction := Some [''r1'' \<mapsto> 7]\<rparr>)"
    by (simp add: map_subtractions_def stdout_handler_subtraction_def line_eval store_score_def
          mapped_intermediate_def new_intermediate_def)
  have 4: "stdout_handler_subtraction as_tag_score (mapped_line ''r1'' ''host2'' ''AS:i:7'')
             = Inr (Some (''r1'', 7))"
    by (simp add: stdout_handler_subtraction_def line_eval)
  have 5: "\<forall>l\<in>set []. \<forall>s'. stdout_handler_subtraction as_tag_score l \<noteq> Inr (Some (''r1'', s'))"
    by simp
  from host_table_keeps_last [OF 1 2 3 4 5] 3 show ?thesis
    by blast
qed

subsection \<open>Rounding to integers\<close>

lemma py_round_near: "\<bar>of_int (py_round x) - x\<bar> \<le> 1 / 2"
proof -
  have f: "of_int \<lfloor>x\<rfloor> \<le> x" "x < of_int \<lfloor>x\<rfloor> + 1"
    by linarith+
  show ?thesis
    unfolding py_round_def Let_def using f by (auto simp: abs_le_iff)
qed

lemma py_round_range:
  assumes "0 \<le> x" and "x \<le> of_int n"
  shows "0 \<le> py_round x \<and> py_round x \<le> n"
proof -
  have lo: "0 \<le> \<lfloor>x\<rfloor>" using assms(1) by simp
  have hi: "\<lfloor>x\<rfloor> \<le> n" using assms(2) by (simp add: floor_le_iff)
  show ?thesis
  proof (cases "\<lfloor>x\<rfloor> = n")
    case True
    then have "x - of_int \<lfloor>x\<rfloor> \<le> 0" using assms(2) by simp
    then have "x - of_int \<lfloor>x\<rfloor> < 1 / 2" by linarith
    with True lo show ?thesis by (simp add: py_round_def Let_def)
  next
    case False
    with hi have "\<lfloor>x\<rfloor> + 1 \<le> n" by linarith
    with lo show ?thesis by (auto simp: py_round_def Let_def)
  qed
qed

lemma py_round_stable:
  assumes "\<bar>of_int k - y\<bar> < 1 / 2"
  shows "py_round y = k"
proof -
  have f: "of_int \<lfloor>y\<rfloor> \<le> y" "y < of_int \<lfloor>y\<rfloor> + 1"
    by linarith+
  from assms have b: "of_int k - 1 / 2 < y" "y < of_int k + 1 / 2"
    by linarith+
  from b f have "of_int k - 1 < (of_int (\<lfloor>y\<rfloor> + 1) :: rat)" "(of_int \<lfloor>y\<rfloor> :: rat) < of_int (k + 1)"
    by simp_all linarith+
  then have "k - 1 < \<lfloor>y\<rfloor> + 1" "\<lfloor>y\<rfloor> < k + 1"
    by (metis of_int_1 of_int_diff of_int_less_iff, metis of_int_less_iff)
  then consider "\<lfloor>y\<rfloor> = k" | "\<lfloor>y\<rfloor> = k - 1"
    by linarith
  then show ?thesis
  proof cases
    case 1
    with b show ?thesis by (simp add: py_round_def Let_def)
  next
    case 2
    with b have "1 / 2 < y - of_int \<lfloor>y\<rfloor>" by simp
    with 2 show ?thesis by (simp add: py_round_def Let_def)
  qed
qed

lemma py_round_of_int: "py_round (of_int k) = k"
  by (rule py_round_stable) simp

subsection \<open>Doubles\<close>

lemma bit_length_bounds:
  "0 < n \<Longrightarrow> 0 < bit_length n \<and> 2 ^ nat (bit_length n - 1) \<le> n \<and> n < 2 ^ nat (bit_length n)"
proof (induction n rule: bit_length.induct)
  case (1 n)
  then have pos: "0 < n" by simp
  have unfold: "bit_length n = 1 + bit_length (n div 2)"
    using pos by (subst bit_length.simps) simp
  show ?case
  proof (cases "n div 2 = 0")
    case True
    with pos have "n = 1" by presburger
    moreover have "bit_length 0 = 0" by (subst bit_length.simps) simp
    ultimately show ?thesis
      using unfold True by simp
  next
    case False
    with pos have half: "0 < n div 2" by presburger
    with 1 pos have ih: "0 < bit_length (n div 2)"
        "2 ^ nat (bit_length (n div 2) - 1) \<le> n div 2"
        "n div 2 < 2 ^ nat (bit_length (n div 2))"
      by simp_all
    let ?b = "bit_length (n div 2)"
    have p: "(2::int) ^ nat ?b = 2 * 2 ^ nat (?b - 1)"
      using ih(1) by (metis Suc_nat_eq_nat_zadd1 add.commute diff_add_cancel diff_ge_0_iff_ge
          int_one_le_iff_zero_less power_Suc)
    have lo: "2 ^ nat ?b \<le> n"
      using p ih(2) by presburger
    have hi: "n < 2 * 2 ^ nat ?b"
      using ih(3) by presburger
    have q: "(2::int) ^ nat (1 + ?b) = 2 * 2 ^ nat ?b"
      using ih(1) by (simp add: nat_add_distrib)
    from ih(1) lo hi q show ?thesis
      unfolding unfold by simp
  qed
qed

lemma ilog2_le:
  assumes "0 < x"
  shows "2 powi (ilog2 x) \<le> x"
proof -
  obtain p q where pq: "quotient_of x = (p, q)" by (cases "quotient_of x")
  then have qpos: "0 < q" by (rule quotient_of_denom_pos)
  from pq have x: "x = of_int p / of_int q" by (rule quotient_of_div)
  with assms qpos have ppos: "0 < p"
    by (simp add: zero_less_divide_iff)
  let ?a = "bit_length p" and ?b = "bit_length q"
  note bp = bit_length_bounds [OF ppos] and bq = bit_length_bounds [OF qpos]
  have lo: "(2::rat) powi (?a - 1) \<le> of_int p"
  proof -
    have "(of_int (2 ^ nat (?a - 1)) :: rat) \<le> of_int p"
      using bp by (simp only: of_int_le_iff)
    moreover have "(2::rat) powi (?a - 1) = 2 ^ nat (?a - 1)"
      using bp by (simp add: power_int_nonneg_exp)
    ultimately show ?thesis by simp
  qed
  have hi: "(of_int q :: rat) \<le> 2 powi ?b"
  proof -
    have "(of_int q :: rat) \<le> of_int (2 ^ nat ?b)"
      using bq by (simp only: of_int_le_iff) simp
    moreover have "(2::rat) powi ?b = 2 ^ nat ?b"
      using bq by (simp add: power_int_nonneg_exp)
    ultimately show ?thesis by simp
  qed
  have "(2::rat) powi (?a - ?b - 1) = 2 powi (?a - 1) / 2 powi ?b"
    by (simp add: power_int_diff)
  also have "\<dots> \<le> of_int p / 2 powi ?b"
    using lo by (simp add: divide_right_mono)
  also have "\<dots> \<le> of_int p / of_int q"
    using hi qpos ppos by (simp add: divide_left_mono)
  finally have low: "(2::rat) powi (?a - ?b - 1) \<le> x"
    using x by simp
  show ?thesis
    using low pq by (simp add: ilog2_def Let_def)
qed

lemma scaled_round_error:
  assumes "0 < q"
  shows "\<bar>of_int (py_round (x / q)) * q - x\<bar> \<le> q / 2"
proof -
  let ?r = "of_int (py_round (x / q)) :: rat"
  have "\<bar>?r - x / q\<bar> \<le> 1 / 2"
    by (rule py_round_near)
  then have "\<bar>?r - x / q\<bar> * q \<le> (1 / 2) * q"
    using assms by (intro mult_right_mono) simp_all
  moreover have "\<bar>?r - x / q\<bar> * q = \<bar>(?r - x / q) * q\<bar>"
    using assms by (simp add: abs_mult)
  moreover have "(?r - x / q) * q = ?r * q - x"
    using assms by (simp add: left_diff_distrib)
  ultimately show ?thesis by simp
qed

lemma to_double_error:
  "\<bar>to_double x - x\<bar> \<le> 2 powi (max (ilog2 \<bar>x\<bar>) (- 1022) - 52) / 2"
proof (cases "x = 0")
  case True
  then show ?thesis by (simp add: to_double_def)
next
  case False
  have "0 < (2::rat) powi (max (ilog2 \<bar>x\<bar>) (- 1022) - 52)"
    by (rule zero_less_power_int) simp
  from scaled_round_error [OF this, of x] False show ?thesis
    unfolding to_double_def Let_def by (simp only: if_False)
qed
lemma pow2_le_imp_le:
  assumes "(2::rat) powi m \<le> y" and "y \<le> 2 powi n"
  shows "m \<le> n"
proof (rule ccontr)
  assume "\<not> m \<le> n"
  then have "n < m" by simp
  then have "(2::rat) powi n < 2 powi m"
    by (rule power_int_strict_increasing) simp
  with assms show False by simp
qed

lemma pow2_le_imp_less:
  assumes "(2::rat) powi m \<le> y" and "y < 2 powi n"
  shows "m < n"
proof (rule ccontr)
  assume "\<not> m < n"
  then have "n \<le> m" by simp
  then have "(2::rat) powi n \<le> 2 powi m"
    by (rule power_int_increasing) simp
  with assms show False by simp
qed

lemma to_double_unit:
  assumes "0 \<le> x" and "x \<le> 1"
  shows "0 \<le> to_double x" and "to_double x \<le> 1" and "\<bar>to_double x - x\<bar> \<le> 1 / 2 ^ 53"
proof -
  have "0 \<le> to_double x \<and> to_double x \<le> 1 \<and> \<bar>to_double x - x\<bar> \<le> 1 / 2 ^ 53"
  proof (cases "x = 0")
    case True
    then show ?thesis by (simp add: to_double_def)
  next
    case False
    with assms have pos: "0 < x" by simp
    define E where "E = max (ilog2 \<bar>x\<bar>) (- 1022)"
    define q :: rat where "q = 2 powi (E - 52)"
    have "(2::rat) powi (ilog2 x) \<le> x"
      using pos by (rule ilog2_le)
    moreover have "x \<le> 2 powi 0" using assms by simp
    ultimately have "ilog2 x \<le> 0" by (rule pow2_le_imp_le)
    with pos have E0: "E \<le> 0" by (simp add: E_def)
    have qpos: "0 < q" by (simp add: q_def)
    have td: "to_double x = of_int (py_round (x / q)) * q"
      using False by (simp add: to_double_def Let_def q_def E_def)
    have "q \<le> 2 powi (- 52)"
      unfolding q_def using E0 by (intro power_int_increasing) simp_all
    then have q52: "q \<le> 1 / 2 ^ 52" by simp
    have "\<bar>to_double x - x\<bar> \<le> q / 2"
      using to_double_error [of x] by (simp add: q_def E_def)
    with q52 have err: "\<bar>to_double x - x\<bar> \<le> 1 / 2 ^ 53" by simp
    have inv: "1 / q = of_int (2 ^ nat (52 - E))"
    proof -
      have "1 / q = 2 powi (52 - E)"
        unfolding q_def by (simp add: power_int_diff)
      also have "\<dots> = 2 ^ nat (52 - E)"
        using E0 by (simp add: power_int_nonneg_exp)
      finally show ?thesis by simp
    qed
    have "0 \<le> x / q" using pos qpos by simp
    moreover have "x / q \<le> of_int (2 ^ nat (52 - E))"
    proof -
      have "x / q \<le> 1 / q" using assms qpos by (simp add: divide_right_mono)
      with inv show ?thesis by simp
    qed
    ultimately have r: "0 \<le> py_round (x / q) \<and> py_round (x / q) \<le> 2 ^ nat (52 - E)"
      by (rule py_round_range)
    then have "(0::rat) \<le> of_int (py_round (x / q))"
      and "(of_int (py_round (x / q)) :: rat) \<le> of_int (2 ^ nat (52 - E))"
      by (simp_all only: of_int_0_le_iff of_int_le_iff)
    then have "0 \<le> of_int (py_round (x / q)) * q"
      and "of_int (py_round (x / q)) * q \<le> of_int (2 ^ nat (52 - E)) * q"
      using qpos by (simp_all add: mult_right_mono)
    moreover have "of_int (2 ^ nat (52 - E)) * q = 1"
      using inv qpos by (metis nonzero_divide_eq_eq less_irrefl mult.commute mult_1)
    ultimately show ?thesis
      using td err by simp
  qed
  then show "0 \<le> to_double x" and "to_double x \<le> 1" and "\<bar>to_double x - x\<bar> \<le> 1 / 2 ^ 53"
    by simp_all
qed
subsection \<open>Coverage and depth of one reference\<close>

lemma py_truediv_unit:
  assumes "0 \<le> a" and "a \<le> b" and "0 < b"
  shows "py_truediv a b = Inr (to_double (of_int a / of_int b))"
    and "0 \<le> to_double (of_int a / of_int b)"
    and "to_double (of_int a / of_int b) \<le> 1"
    and "\<bar>to_double (of_int a / of_int b) - of_int a / of_int b\<bar> \<le> 1 / 2 ^ 53"
proof -
  have r0: "(0::rat) \<le> of_int a / of_int b"
    using assms by simp
  have r1: "(of_int a :: rat) / of_int b \<le> 1"
    using assms by (simp add: divide_le_eq)
  note u = to_double_unit [OF r0 r1]
  show "0 \<le> to_double (of_int a / of_int b)" and "to_double (of_int a / of_int b) \<le> 1"
    and "\<bar>to_double (of_int a / of_int b) - of_int a / of_int b\<bar> \<le> 1 / 2 ^ 53"
    using u by simp_all
  have "\<bar>to_double (of_int a / of_int b)\<bar> \<le> 1"
    using u by (simp add: abs_le_iff)
  moreover have "(1::rat) < 2 ^ 1024"
    by (rule one_less_power) simp_all
  ultimately have "\<not> (2 ^ 1024 \<le> \<bar>to_double (of_int a / of_int b)\<bar>)"
    by linarith
  with assms show "py_truediv a b = Inr (to_double (of_int a / of_int b))"
    by (simp add: py_truediv_def)
qed

lemma py_truediv_nonzero: "b \<noteq> 0 \<Longrightarrow> py_truediv a b \<noteq> Inl ZeroDivisionError"
  by (simp add: py_truediv_def)

lemma coverage_of_thousandths:
  assumes "xs \<noteq> []"
  shows "\<exists>k. coverage_of xs = Inr (to_double (of_int k / 1000))
           \<and> 0 \<le> k \<and> k \<le> 1000
           \<and> \<bar>(of_int k :: rat) / 1000 - (1 - of_nat (count_list xs 0) / of_nat (length xs))\<bar>
                \<le> 1 / 2000 + 1 / 2 ^ 52
           \<and> 0 \<le> to_double (of_int k / 1000) \<and> to_double (of_int k / 1000) \<le> 1"
proof -
  let ?z = "int (count_list xs 0)" and ?n = "int (length xs)"
  define r :: rat where "r = of_int ?z / of_int ?n"
  define q1 where "q1 = to_double r"
  define u where "u = to_double (1 - q1)"
  define k where "k = py_round (u * 1000)"
  have z: "0 \<le> ?z" "?z \<le> ?n" "0 < ?n"
    using assms count_le_length [of xs 0] by simp_all
  note d = py_truediv_unit [OF z]
  have q1: "0 \<le> q1" "q1 \<le> 1" "\<bar>q1 - r\<bar> \<le> 1 / 2 ^ 53"
    using d(2-4) by (simp_all add: q1_def r_def)
  have "0 \<le> 1 - q1" "1 - q1 \<le> 1" using q1 by simp_all
  note uu = to_double_unit [OF this]
  have u: "0 \<le> u" "u \<le> 1" "\<bar>u - (1 - q1)\<bar> \<le> 1 / 2 ^ 53"
    using uu by (simp_all add: u_def)
  have "0 \<le> u * 1000" "u * 1000 \<le> of_int 1000" using u by simp_all
  then have kr: "0 \<le> k \<and> k \<le> 1000"
    unfolding k_def by (rule py_round_range)
  have "\<bar>of_int k - u * 1000\<bar> \<le> 1 / 2"
    unfolding k_def by (rule py_round_near)
  then have kn: "\<bar>of_int k / 1000 - u\<bar> \<le> 1 / 2000"
    by linarith
  have "(0::rat) \<le> of_int k" "(of_int k :: rat) \<le> 1000"
    using kr by simp_all
  then have "(0::rat) \<le> of_int k / 1000" "(of_int k :: rat) / 1000 \<le> 1"
    by simp_all
  note c = to_double_unit [OF this]
  have close: "\<bar>of_int k / 1000 - (1 - r)\<bar> \<le> 1 / 2000 + 1 / 2 ^ 52"
  proof -
    have "\<bar>of_int k / 1000 - (1 - r)\<bar> \<le> \<bar>of_int k / 1000 - u\<bar> + \<bar>u - (1 - q1)\<bar> + \<bar>q1 - r\<bar>"
      by linarith
    also have "\<dots> \<le> 1 / 2000 + 1 / 2 ^ 53 + 1 / 2 ^ 53"
      using kn u(3) q1(3) by linarith
    finally show ?thesis by simp
  qed
  have val: "coverage_of xs = Inr (to_double (of_int k / 1000))"
    using d(1) by (simp add: coverage_of_def py_float_sub_def py_round_digits_def
        k_def u_def q1_def r_def)
  have r': "r = of_nat (count_list xs 0) / of_nat (length xs)"
    by (simp add: r_def)
  show ?thesis
  proof (intro exI conjI)
    show "coverage_of xs = Inr (to_double (of_int k / 1000))" by (rule val)
    show "0 \<le> k" and "k \<le> 1000" using kr by simp_all
    show "\<bar>(of_int k :: rat) / 1000 - (1 - of_nat (count_list xs 0) / of_nat (length xs))\<bar>
            \<le> 1 / 2000 + 1 / 2 ^ 52"
      using close unfolding r' .
    show "0 \<le> to_double (of_int k / 1000)" by (rule c(1))
    show "to_double (of_int k / 1000) \<le> 1" by (rule c(2))
  qed
qed

lemma round_margin:
  fixes k s n :: int
  assumes "0 < n" and "\<bar>of_int k - (of_int s :: rat) / of_int n\<bar> < 1 / 2"
  shows "\<bar>of_int k - (of_int s :: rat) / of_int n\<bar> \<le> 1 / 2 - 1 / (2 * of_int n)"
proof -
  define t where "t = k * n - s"
  have npos: "(0::rat) < of_int n" using assms(1) by simp
  have eq: "of_int k - (of_int s :: rat) / of_int n = of_int t / of_int n"
    using npos by (simp add: t_def field_simps)
  have nabs: "\<bar>of_int n :: rat\<bar> = of_int n"
    using npos by (rule abs_of_pos)
  have ab: "\<bar>(of_int t :: rat) / of_int n\<bar> = of_int \<bar>t\<bar> / of_int n"
    by (simp only: abs_divide nabs of_int_abs)
  from assms(2) have "(of_int \<bar>t\<bar> :: rat) / of_int n < 1 / 2"
    unfolding eq ab .
  then have "(of_int \<bar>t\<bar> :: rat) * 2 < of_int n"
    using npos by (simp add: field_simps)
  then have "(of_int (\<bar>t\<bar> * 2) :: rat) < of_int n" by simp
  then have "\<bar>t\<bar> * 2 < n" by (simp only: of_int_less_iff)
  then have "\<bar>t\<bar> * 2 \<le> n - 1" by simp
  then have "(of_int (\<bar>t\<bar> * 2) :: rat) \<le> of_int (n - 1)" by (simp only: of_int_le_iff)
  then have "(of_int \<bar>t\<bar> :: rat) * 2 \<le> of_int n - 1" by simp
  then have "(of_int \<bar>t\<bar> :: rat) / of_int n \<le> 1 / 2 - 1 / (2 * of_int n)"
    using npos by (simp add: field_simps)
  then show ?thesis
    unfolding eq ab .
qed

lemma exponent_below:
  assumes "m \<noteq> 0" and "\<bar>m\<bar> < 2 powi b" and "- 1022 < b"
  shows "max (ilog2 \<bar>m\<bar>) (- 1022) < b"
proof -
  have "0 < \<bar>m\<bar>" using assms(1) by simp
  then have "(2::rat) powi (ilog2 \<bar>m\<bar>) \<le> \<bar>m\<bar>" by (rule ilog2_le)
  from this assms(2) have "ilog2 \<bar>m\<bar> < b" by (rule pow2_le_imp_less)
  with assms(3) show ?thesis by simp
qed

lemma to_double_exact_half:
  assumes "m \<noteq> 0" and "\<bar>m\<bar> < 2 powi 52" and "2 * m = of_int j"
  shows "to_double m = m"
proof -
  define E where "E = max (ilog2 \<bar>m\<bar>) (- 1022)"
  define q :: rat where "q = 2 powi (E - 52)"
  have "E < 52" unfolding E_def using assms(1,2) by (rule exponent_below) simp
  then have E: "0 \<le> 51 - E" by simp
  have qpos: "0 < q" by (simp add: q_def)
  have "1 / q = 2 powi (52 - E)"
    unfolding q_def by (simp add: power_int_diff)
  also have "\<dots> = 2 powi (1 + (51 - E))" by (simp add: algebra_simps)
  also have "\<dots> = 2 * 2 powi (51 - E)"
    by (subst power_int_add) simp_all
  also have "(2::rat) powi (51 - E) = 2 ^ nat (51 - E)"
    using E by (rule power_int_nonneg_exp)
  finally have inv: "1 / q = 2 * 2 ^ nat (51 - E)" .
  have "m / q = m * (1 / q)" by simp
  also have "\<dots> = (2 * m) * 2 ^ nat (51 - E)" unfolding inv by simp
  also have "\<dots> = of_int (j * 2 ^ nat (51 - E))" using assms(3) by simp
  finally have mq: "m / q = of_int (j * 2 ^ nat (51 - E))" .
  have "to_double m = of_int (py_round (m / q)) * q"
    using assms(1) by (simp add: to_double_def Let_def q_def E_def)
  also have "\<dots> = (m / q) * q"
    unfolding mq py_round_of_int ..
  also have "\<dots> = m" using qpos by simp
  finally show ?thesis .
qed

lemma to_double_error_relative:
  assumes "m \<noteq> 0"
  shows "\<bar>to_double m - m\<bar> \<le> \<bar>m\<bar> / 2 ^ 53 \<or> \<bar>to_double m - m\<bar> \<le> 2 powi (- 1075)"
proof -
  define e where "e = ilog2 \<bar>m\<bar>"
  have err: "\<bar>to_double m - m\<bar> \<le> 2 powi (max e (- 1022) - 52) / 2"
    unfolding e_def by (rule to_double_error)
  have "0 < \<bar>m\<bar>" using assms by simp
  then have le: "(2::rat) powi e \<le> \<bar>m\<bar>" unfolding e_def by (rule ilog2_le)
  show ?thesis
  proof (cases "- 1022 \<le> e")
    case True
    then have "max e (- 1022) = e" by simp
    moreover have "(2::rat) powi (e - 52) / 2 = 2 powi e / 2 ^ 53"
      by (simp add: power_int_diff)
    moreover have "(2::rat) powi e / 2 ^ 53 \<le> \<bar>m\<bar> / 2 ^ 53"
      using le by (simp add: divide_right_mono)
    ultimately show ?thesis using err by simp
  next
    case False
    then have "max e (- 1022) = - 1022" by simp
    moreover have "(2::rat) powi (- 1022 - 52) / 2 = 2 powi (- 1075)"
    proof -
      have "(2::rat) powi (- 1074) = 2 powi (1 + (- 1075))" by simp
      also have "\<dots> = 2 * 2 powi (- 1075)"
        by (subst power_int_add) simp_all
      finally show ?thesis by simp
    qed
    ultimately show ?thesis using err by simp
  qed
qed
lemma to_double_near_quarter:
  assumes "\<bar>m\<bar> < 2 powi 52"
  shows "\<bar>to_double m - m\<bar> \<le> 1 / 4"
proof (cases "m = 0")
  case True
  then show ?thesis by (simp add: to_double_def)
next
  case False
  have "max (ilog2 \<bar>m\<bar>) (- 1022) < 52"
    using False assms by (rule exponent_below) simp
  then have "max (ilog2 \<bar>m\<bar>) (- 1022) - 52 \<le> - 1" by simp
  then have "(2::rat) powi (max (ilog2 \<bar>m\<bar>) (- 1022) - 52) \<le> 2 powi (- 1)"
    by (rule power_int_increasing) simp
  then have "(2::rat) powi (max (ilog2 \<bar>m\<bar>) (- 1022) - 52) / 2 \<le> 1 / 4"
    by simp
  with to_double_error [of m] show ?thesis by linarith
qed

lemma mean_below:
  fixes s n :: int
  assumes "0 < n" and "\<bar>s\<bar> < 2 ^ 52"
  shows "\<bar>(of_int s :: rat) / of_int n\<bar> < 2 ^ 52"
proof -
  have npos: "(0::rat) < of_int n" and n1: "(1::rat) \<le> of_int n"
    using assms(1) by simp_all
  have "(of_int \<bar>s\<bar> :: rat) < of_int (2 ^ 52)"
    using assms(2) by (simp only: of_int_less_iff)
  then have sabs: "\<bar>of_int s :: rat\<bar> < 2 ^ 52" by simp
  have e: "\<bar>(of_int s :: rat) / of_int n\<bar> = \<bar>of_int s\<bar> / of_int n"
    using npos by (simp only: abs_divide abs_of_pos)
  have "\<bar>of_int s :: rat\<bar> / of_int n \<le> \<bar>of_int s\<bar> / 1"
    using n1 by (intro divide_left_mono) simp_all
  then have "\<bar>of_int s :: rat\<bar> / of_int n \<le> \<bar>of_int s\<bar>"
    by (simp only: div_by_1)
  with sabs show ?thesis
    unfolding e by linarith
qed

lemma round_of_double_mean:
  fixes s n :: int
  assumes "0 < n" and "\<bar>s\<bar> < 2 ^ 52"
  shows "py_round (to_double (of_int s / of_int n)) = py_round (of_int s / of_int n)"
proof -
  define m :: rat where "m = of_int s / of_int n"
  define k where "k = py_round m"
  have npos: "(0::rat) < of_int n" and n1: "(1::rat) \<le> of_int n"
    using assms(1) by simp_all
  have sabs: "\<bar>of_int s :: rat\<bar> < 2 ^ 52"
  proof -
    have "(of_int \<bar>s\<bar> :: rat) < of_int (2 ^ 52)"
      using assms(2) by (simp only: of_int_less_iff)
    then show ?thesis by simp
  qed
  have mabs: "\<bar>m\<bar> = \<bar>of_int s\<bar> / of_int n"
    unfolding m_def using npos by (simp only: abs_divide abs_of_pos)
  have "\<bar>of_int s :: rat\<bar> / of_int n \<le> \<bar>of_int s\<bar> / 1"
    using n1 by (intro divide_left_mono) simp_all
  with mabs sabs have mlt: "\<bar>m\<bar> < 2 ^ 52" by simp
  then have mlt': "\<bar>m\<bar> < 2 powi 52" by simp
  note quarter = to_double_near_quarter [OF mlt']
  have near: "\<bar>of_int k - m\<bar> \<le> 1 / 2"
    unfolding k_def by (rule py_round_near)
  have "py_round (to_double m) = k"
  proof (cases "\<bar>m\<bar> < 1 / 4")
    case True
    then have "\<bar>of_int 0 - m\<bar> < 1 / 2" by simp
    then have "py_round m = 0" by (rule py_round_stable)
    moreover have "\<bar>to_double m\<bar> < 1 / 2"
      using True quarter by linarith
    then have "\<bar>of_int 0 - to_double m\<bar> < 1 / 2" by simp
    then have "py_round (to_double m) = 0" by (rule py_round_stable)
    ultimately show ?thesis by (simp add: k_def)
  next
    case False
    then have m0: "m \<noteq> 0" by auto
    show ?thesis
    proof (cases "\<bar>of_int k - m\<bar> < 1 / 2")
      case False
      with near have "\<bar>of_int k - m\<bar> = 1 / 2" by simp
      then have "of_int k - m = 1 / 2 \<or> of_int k - m = - (1 / 2)" by linarith
      then have "2 * m = 2 * of_int k - 1 \<or> 2 * m = 2 * of_int k + 1" by linarith
      then have "2 * m = of_int (2 * k - 1) \<or> 2 * m = of_int (2 * k + 1)" by simp
      then obtain j :: int where "2 * m = of_int j" by blast
      with m0 mlt' have "to_double m = m" by (rule to_double_exact_half)
      then show ?thesis by (simp add: k_def)
    next
      case True
      then have margin: "\<bar>of_int k - m\<bar> \<le> 1 / 2 - 1 / (2 * of_int n)"
        unfolding m_def using assms(1) by (intro round_margin)
      have small: "\<bar>to_double m - m\<bar> < 1 / (2 * of_int n)"
      proof -
        have a: "\<bar>m\<bar> / 2 ^ 53 < 1 / (2 * of_int n)"
        proof -
          have "\<bar>m\<bar> / 2 ^ 53 = (\<bar>of_int s\<bar> / 2 ^ 53) / of_int n"
            unfolding mabs by simp
          also have "\<dots> < (1 / 2) / of_int n"
            using sabs npos by (intro divide_strict_right_mono) simp_all
          finally show ?thesis by simp
        qed
        have b: "(2::rat) powi (- 1075) < 1 / (2 * of_int n)"
        proof -
          from False have "1 / 4 \<le> \<bar>of_int s :: rat\<bar> / of_int n"
            unfolding mabs by simp
          then have "(of_int n :: rat) \<le> 4 * \<bar>of_int s\<bar>"
            using npos by (simp add: field_simps)
          with sabs have "(of_int n :: rat) < 2 ^ 54" by simp
          then have "(2 * of_int n :: rat) < 2 ^ 55" by simp
          then have "1 / (2::rat) ^ 55 < 1 / (2 * of_int n)"
            using npos by (intro divide_strict_left_mono) simp_all
          moreover have "(2::rat) powi (- 1075) \<le> 2 powi (- 55)"
            by (rule power_int_increasing) simp_all
          moreover have "(2::rat) powi (- 55) = 1 / 2 ^ 55"
            by (simp add: power_int_minus_divide)
          ultimately show ?thesis by simp
        qed
        from to_double_error_relative [OF m0] a b show ?thesis by linarith
      qed
      have "\<bar>of_int k - to_double m\<bar> \<le> \<bar>of_int k - m\<bar> + \<bar>to_double m - m\<bar>"
        by linarith
      with margin small have "\<bar>of_int k - to_double m\<bar> < 1 / 2" by linarith
      then show ?thesis by (rule py_round_stable)
    qed
  qed
  then show ?thesis by (simp add: k_def m_def)
qed

lemma depth_of_small_sum:
  assumes "xs \<noteq> []" and "\<bar>sum_list xs\<bar> < 2 ^ 52"
  shows "depth_of xs = Inr (py_round (of_int (sum_list xs) / of_nat (length xs)))"
proof -
  let ?s = "sum_list xs" and ?n = "int (length xs)"
  define m :: rat where "m = of_int ?s / of_int ?n"
  have n: "0 < ?n" using assms(1) by simp
  have mlt: "\<bar>m\<bar> < 2 ^ 52"
    unfolding m_def using n assms(2) by (rule mean_below)
  then have "\<bar>m\<bar> < 2 powi 52" by simp
  then have "\<bar>to_double m - m\<bar> \<le> 1 / 4" by (rule to_double_near_quarter)
  with mlt have "\<bar>to_double m\<bar> < 2 ^ 52 + 1" by linarith
  moreover have "(2::rat) ^ 52 + 1 \<le> 2 ^ 53" by simp
  moreover have "(2::rat) ^ 53 \<le> 2 ^ 1024" by (rule power_increasing) simp_all
  ultimately have "\<not> 2 ^ 1024 \<le> \<bar>to_double m\<bar>" by linarith
  with n have "py_truediv ?s ?n = Inr (to_double m)"
    unfolding py_truediv_def m_def by (simp only: if_False) simp
  moreover have "py_round (to_double m) = py_round m"
    unfolding m_def using n assms(2) by (rule round_of_double_mean)
  ultimately show ?thesis
    by (simp add: depth_of_def m_def)
qed

text \<open>
  C9, as stated: the reported coverage equals 1 minus the number of zero-depth positions
  divided by the array length. For the depth array \<open>[0, 1, 1]\<close> that quotient is
  \<open>2/3\<close> and the coverage expression gives the float \<open>0.667\<close>.
\<close>

theorem coverage_not_exact_fraction:
  "coverage_of [0, 1, 1] = Inr (to_double (667 / 1000)) \<and> to_double (667 / 1000) \<noteq> 1 - 1 / 3"
  by code_simp

text \<open>
  Three zero positions of eighty give \<open>0.963\<close>: the float \<open>1 - 3/80\<close> lies above
  \<open>0.9625\<close>. Three positions of depth \<open>2 ^ 53 + 1\<close> give the depth \<open>2 ^ 53\<close>: the
  float quotient is not the mean.
\<close>

lemma coverage_of_three_in_eighty:
  "coverage_of (replicate 3 0 @ replicate 77 1) = Inr (to_double (963 / 1000))"
  by code_simp

lemma depth_of_large_sum:
  "depth_of [2 ^ 53 + 1, 2 ^ 53 + 1, 2 ^ 53 + 1] = Inr (2 ^ 53)"
  by code_simp

text \<open>
  C9, amended: for every non-empty depth array the coverage expression gives the float
  nearest to a number \<open>k/1000\<close> of three decimals, with \<open>k\<close> from 0 to 1000, that is
  within \<open>0.0005 + 2 ^ - 52\<close> of 1 minus the number of zero-depth positions divided by the
  array length (the three-decimal rounding of the float difference); the value lies in
  \<open>[0, 1]\<close>. When the sum of the array is below \<open>2 ^ 52\<close> in absolute value, the depth
  expression gives the exact mean rounded to the nearest integer, a tie going to the even
  one.
\<close>

theorem coverage_and_depth_rounded:
  assumes "xs \<noteq> []"
  shows "(\<exists>k. coverage_of xs = Inr (to_double (of_int k / 1000))
            \<and> 0 \<le> k \<and> k \<le> 1000
            \<and> \<bar>(of_int k :: rat) / 1000 - (1 - of_nat (count_list xs 0) / of_nat (length xs))\<bar>
                 \<le> 1 / 2000 + 1 / 2 ^ 52
            \<and> 0 \<le> to_double (of_int k / 1000) \<and> to_double (of_int k / 1000) \<le> 1)
       \<and> (\<bar>sum_list xs\<bar> < 2 ^ 52 \<longrightarrow>
            depth_of xs = Inr (py_round (of_int (sum_list xs) / of_nat (length xs))))"
  using coverage_of_thousandths [OF assms] depth_of_small_sum [OF assms]
  by (intro conjI impI)

theorem coverage_and_depth_rounded_witness:
  "[0, 1, 1, 4] \<noteq> ([] :: int list)
   \<and> \<bar>sum_list [0, 1, 1, 4 :: int]\<bar> < 2 ^ 52
   \<and> depth_of [0, 1, 1, 4] = Inr 2
   \<and> (\<exists>k. coverage_of [0, 1, 1, 4] = Inr (to_double (of_int k / 1000)) \<and> 0 \<le> k \<and> k \<le> 1000)"
proof -
  have ne: "[0, 1, 1, 4] \<noteq> ([] :: int list)" by simp
  have small: "\<bar>sum_list [0, 1, 1, 4 :: int]\<bar> < 2 ^ 52" by simp
  have d: "py_round (of_int (sum_list [0, 1, 1, 4]) / of_nat (length [0, 1, 1, 4 :: int])) = 2"
    by code_simp
  note t = coverage_and_depth_rounded [OF ne]
  from t small have "depth_of [0, 1, 1, 4] = Inr 2"
    unfolding d by (elim conjE) (erule mp)
  moreover from t
  have "\<exists>k. coverage_of [0, 1, 1, 4] = Inr (to_double (of_int k / 1000)) \<and> 0 \<le> k \<and> k \<le> 1000"
    by (elim conjE exE) (intro exI conjI, assumption+)
  ultimately show ?thesis
    using ne small by (intro conjI)
qed

text \<open>
  C7, as stated: for a depth array of length 0 the coverage computation reports coverage
  0 and depth 0. Neither expression returns 0 on the empty array.
\<close>

theorem empty_array_no_zero_coverage:
  "coverage_of [] \<noteq> Inr 0 \<and> depth_of [] \<noteq> Inr 0"
  by (simp add: coverage_of_def depth_of_def py_truediv_def)

text \<open>
  C7, amended: the coverage expression and the depth expression divide by the length of
  the depth array without a guard; each raises \<open>ZeroDivisionError\<close> exactly when the
  array has length 0, so no coverage and no depth is reported for such a reference.
\<close>

theorem empty_array_divides_by_zero:
  "(coverage_of xs = Inl ZeroDivisionError \<longleftrightarrow> length xs = 0)
   \<and> (depth_of xs = Inl ZeroDivisionError \<longleftrightarrow> length xs = 0)"
proof (cases "length xs = 0")
  case True
  then show ?thesis
    by (simp add: coverage_of_def depth_of_def py_truediv_def)
next
  case False
  then have "int (length xs) \<noteq> 0" by simp
  then have "py_truediv a (int (length xs)) \<noteq> Inl ZeroDivisionError" for a
    by (rule py_truediv_nonzero)
  with False show ?thesis
    by (auto simp: coverage_of_def depth_of_def split: sum.splits)
qed

theorem empty_array_divides_by_zero_witness:
  "coverage_of [] = Inl ZeroDivisionError \<and> depth_of [] = Inl ZeroDivisionError"
  using empty_array_divides_by_zero [of "[]"] by simp

subsection \<open>The alignment file after subtraction\<close>

lemma path_div_inject: "path_div p a = path_div p b \<longleftrightarrow> a = b"
  by (cases p) simp









subsection \<open>From one step to the next\<close>

text \<open>
  What each step leaves for the next: the targeted pass creates the alignment file and
  names the file of mapped reads that it gave to \<open>--al\<close>; the host-subtraction pass
  changes only \<open>to_subtraction\<close>; \<open>reassignment\<close> returns only with an empty list of
  hits.
\<close>

lemma map_isolates_leaves:
  assumes "map_isolates run sc c fs im rd isolate_path proc = Inr (fs', im')"
  shows "isolate_vta_path im' = Some (path_div isolate_path ''to_isolates.vta'')"
    and "isolate_mapped_fastq_path im' = Some (path_div isolate_path ''mapped.fastq'')"
    and "fs' (path_div isolate_path ''to_isolates.vta'') \<noteq> None"
    and "to_otus im' = to_otus im" and "lengths im' = lengths im"
  using assms by (auto simp: map_isolates_def Let_def split: sum.splits)

lemma map_subtractions_leaves:
  assumes "map_subtractions run sc im sub proc = Inr im'"
  shows "isolate_vta_path im' = isolate_vta_path im"
    and "isolate_mapped_fastq_path im' = isolate_mapped_fastq_path im"
    and "to_subtraction im' \<noteq> None"
  using assms by (auto simp: map_subtractions_def split: sum.splits option.splits)

lemma reassignment_returns_no_hit:
  assumes "reassignment rp wr cc fs im res isolate_path idx = Inr (fs', im', res')"
  shows "results res' = Some []"
proof -
  from assms obtain report hits cov where
    m: "map_sum (attach_hit idx cov) report = Inr hits" and r: "results res' = Some hits"
    by (auto simp: reassignment_def Let_def split: option.splits sum.splits prod.splits)
  from no_hits_from_report [OF m] r show ?thesis by simp
qed

end
